theory Spec2Isabelle
  imports Complex_Main "HOL-Library.Log_Nat" "HOL-Library.Monad_Syntax"
begin

section \<open>JavaScript numbers\<close>

text \<open>
  A JavaScript number is an IEEE 754 binary64 value: NaN, an infinity, or a finite
  rational of the form \<open>n * 2 ^ t\<close> with \<open>\<bar>n\<bar> < 2 ^ 53\<close> and \<open>- 1074 \<le> t \<le> 971\<close>.
  The sign of zero is not tracked: none of the operations used by the quote engine
  (comparison, \<open>Math.max\<close> against another number, addition, multiplication, JSON
  output) tells \<open>-0\<close> from \<open>+0\<close>.
\<close>

datatype jsnum = NaN | PInf | NInf | Fin rat

text \<open>\<open>ilog2 x\<close> is the binary exponent of a non-zero \<open>x\<close>: \<open>2 ^ e \<le> \<bar>x\<bar> < 2 ^ (e + 1)\<close>.\<close>

definition ilog2 :: "rat \<Rightarrow> int" where
  "ilog2 x = (let (p, q) = quotient_of \<bar>x\<bar>; k = bitlen p - bitlen q
              in if 2 powi k \<le> \<bar>x\<bar> then k else k - 1)"

definition round_half_even :: "rat \<Rightarrow> int" where
  "round_half_even y = (let f = \<lfloor>y\<rfloor>; d = y - of_int f
     in if d < 1 / 2 then f else if 1 / 2 < d then f + 1 else if even f then f else f + 1)"

text \<open>
  \<open>fl\<close> rounds an exact result to the nearest binary64 value, ties to even: 53 significant
  bits, gradual underflow below \<open>2 ^ - 1022\<close>, overflow to an infinity when the rounded
  magnitude reaches \<open>2 ^ 1024\<close>.
\<close>

definition fl :: "rat \<Rightarrow> jsnum" where
  "fl x = (if x = 0 then Fin 0 else
     let e = max (ilog2 x) (- 1022);
         n = round_half_even (x / 2 powi (e - 52))
     in if 1024 \<le> e \<or> e = 1023 \<and> 9007199254740992 \<le> \<bar>n\<bar>
        then (if 0 < x then PInf else NInf)
        else Fin (of_int n * 2 powi (e - 52)))"

definition is_double :: "rat \<Rightarrow> bool" where
  "is_double x \<longleftrightarrow> fl x = Fin x"

fun js_neg :: "jsnum \<Rightarrow> jsnum" where
  "js_neg NaN = NaN"
| "js_neg PInf = NInf"
| "js_neg NInf = PInf"
| "js_neg (Fin x) = Fin (- x)"

fun js_add :: "jsnum \<Rightarrow> jsnum \<Rightarrow> jsnum" where
  "js_add (Fin x) (Fin y) = fl (x + y)"
| "js_add NaN _ = NaN"
| "js_add _ NaN = NaN"
| "js_add PInf NInf = NaN"
| "js_add NInf PInf = NaN"
| "js_add PInf _ = PInf"
| "js_add _ PInf = PInf"
| "js_add NInf _ = NInf"
| "js_add _ NInf = NInf"

definition js_sub :: "jsnum \<Rightarrow> jsnum \<Rightarrow> jsnum" where
  "js_sub a b = js_add a (js_neg b)"

fun js_mul :: "jsnum \<Rightarrow> jsnum \<Rightarrow> jsnum" where
  "js_mul (Fin x) (Fin y) = fl (x * y)"
| "js_mul NaN _ = NaN"
| "js_mul _ NaN = NaN"
| "js_mul PInf (Fin y) = (if y = 0 then NaN else if 0 < y then PInf else NInf)"
| "js_mul NInf (Fin y) = (if y = 0 then NaN else if 0 < y then NInf else PInf)"
| "js_mul (Fin x) PInf = (if x = 0 then NaN else if 0 < x then PInf else NInf)"
| "js_mul (Fin x) NInf = (if x = 0 then NaN else if 0 < x then NInf else PInf)"
| "js_mul PInf PInf = PInf"
| "js_mul NInf NInf = PInf"
| "js_mul PInf NInf = NInf"
| "js_mul NInf PInf = NInf"

text \<open>The comparisons \<open><=\<close> and \<open><\<close>: false as soon as an operand is NaN.\<close>

fun js_le :: "jsnum \<Rightarrow> jsnum \<Rightarrow> bool" where
  "js_le NaN _ = False"
| "js_le _ NaN = False"
| "js_le NInf _ = True"
| "js_le _ PInf = True"
| "js_le (Fin x) (Fin y) = (x \<le> y)"
| "js_le _ _ = False"

definition js_lt :: "jsnum \<Rightarrow> jsnum \<Rightarrow> bool" where
  "js_lt a b \<longleftrightarrow> js_le a b \<and> \<not> js_le b a"

definition isNaN :: "jsnum \<Rightarrow> bool" where
  "isNaN x \<longleftrightarrow> x = NaN"

definition Math_max :: "jsnum \<Rightarrow> jsnum \<Rightarrow> jsnum" where
  "Math_max a b = (if isNaN a \<or> isNaN b then NaN else if js_le a b then b else a)"

text \<open>
  \<open>Math.floor\<close> and \<open>Math.round\<close> (halves go up) of a finite double are integers that are
  doubles again, so no rounding step follows.
\<close>

fun Math_floor :: "jsnum \<Rightarrow> jsnum" where
  "Math_floor (Fin x) = Fin (of_int \<lfloor>x\<rfloor>)"
| "Math_floor v = v"

fun Math_round :: "jsnum \<Rightarrow> jsnum" where
  "Math_round (Fin x) = Fin (of_int \<lfloor>x + 1 / 2\<rfloor>)"
| "Math_round v = v"

text \<open>A number literal of the source denotes the double nearest to its decimal value.\<close>

definition lit :: "rat \<Rightarrow> jsnum" where
  "lit x = fl x"

definition is_integer :: "jsnum \<Rightarrow> bool" where
  "is_integer v \<longleftrightarrow> (case v of Fin x \<Rightarrow> of_int \<lfloor>x\<rfloor> = x | _ \<Rightarrow> False)"

definition is_finite :: "jsnum \<Rightarrow> bool" where
  "is_finite v \<longleftrightarrow> (case v of Fin x \<Rightarrow> True | _ \<Rightarrow> False)"

section \<open>JavaScript strings\<close>

text \<open>
  A string is a sequence of UTF-16 code units, each an integer from 0 to 65535. \<open>js\<close>
  turns an ASCII literal of the source into one; the pound sign of the source is the
  single code unit 163.
\<close>

type_synonym jsstring = "int list"

definition js :: "string \<Rightarrow> jsstring" where
  "js s = map of_char s"

definition pound :: int where
  "pound = 163"

text \<open>White space and line terminators of ECMAScript, as \<open>trim\<close> and the number parsers skip them.\<close>

definition is_space :: "int \<Rightarrow> bool" where
  "is_space c \<longleftrightarrow> (9 \<le> c \<and> c \<le> 13) \<or> c = 32 \<or> c = 160 \<or> c = 5760 \<or> (8192 \<le> c \<and> c \<le> 8202)
                 \<or> c = 8232 \<or> c = 8233 \<or> c = 8239 \<or> c = 8287 \<or> c = 12288 \<or> c = 65279"

definition is_digit :: "int \<Rightarrow> bool" where
  "is_digit c \<longleftrightarrow> 48 \<le> c \<and> c \<le> 57"

definition trimStart :: "jsstring \<Rightarrow> jsstring" where
  "trimStart s = dropWhile is_space s"

definition trim :: "jsstring \<Rightarrow> jsstring" where
  "trim s = rev (dropWhile is_space (rev (dropWhile is_space s)))"

text \<open>\<open>s.replace(/ /g, t)\<close>: every space becomes \<open>t\<close>.\<close>

definition replace_spaces :: "jsstring \<Rightarrow> jsstring \<Rightarrow> jsstring" where
  "replace_spaces t s = concat (map (\<lambda>c. if c = 32 then t else [c]) s)"

text \<open>\<open>s.replace(/[^0-9.-]+/g, "")\<close>: only digits, points and minus signs stay.\<close>

definition strip_non_numeric :: "jsstring \<Rightarrow> jsstring" where
  "strip_non_numeric s = filter (\<lambda>c. is_digit c \<or> c = 46 \<or> c = 45) s"

text \<open>\<open>s.replace('\<pounds>', '')\<close> with a string pattern: only the first occurrence goes.\<close>

fun remove_first :: "int \<Rightarrow> jsstring \<Rightarrow> jsstring" where
  "remove_first c [] = []"
| "remove_first c (d # s) = (if d = c then s else d # remove_first c s)"

text \<open>The value of a run of digits (decimal or hexadecimal) in the given radix.\<close>

fun digits_value :: "int \<Rightarrow> int \<Rightarrow> jsstring \<Rightarrow> int" where
  "digits_value radix acc [] = acc"
| "digits_value radix acc (c # s) =
     digits_value radix (acc * radix +
       (if 97 \<le> c then c - 87 else if 65 \<le> c then c - 55 else c - 48)) s"

fun starts_with :: "jsstring \<Rightarrow> jsstring \<Rightarrow> bool" where
  "starts_with [] s = True"
| "starts_with (c # p) [] = False"
| "starts_with (c # p) (d # s) = (c = d \<and> starts_with p s)"

text \<open>
  A leading sign: the factor and the rest of the string.
\<close>

definition take_sign :: "jsstring \<Rightarrow> int \<times> jsstring" where
  "take_sign s = (case s of [] \<Rightarrow> (1, [])
     | c # r \<Rightarrow> if c = 45 then (- 1, r) else if c = 43 then (1, r) else (1, s))"

text \<open>
  \<open>parseFloat\<close>: skip leading white space, read the longest prefix that is a signed
  decimal literal (\<open>Infinity\<close>, or digits with an optional fraction and an optional
  exponent), NaN when there is none; the value is rounded to the nearest double.
  ECMAScript lets an engine drop the digits after the 20th before rounding; here, as
  in \<open>parseInt\<close> below, the value read is rounded once, without that step.
\<close>

definition exponent_part :: "jsstring \<Rightarrow> int" where
  "exponent_part s = (case s of [] \<Rightarrow> 0
     | c # r \<Rightarrow> if c = 101 \<or> c = 69
         then (let (sg, r') = take_sign r; ds = takeWhile is_digit r'
               in if ds = [] then 0 else sg * digits_value 10 0 ds)
         else 0)"

definition parseFloat :: "jsstring \<Rightarrow> jsnum" where
  "parseFloat s =
     (let (sg, u) = take_sign (trimStart s)
      in if starts_with (js ''Infinity'') u then (if sg = 1 then PInf else NInf)
         else
           let ip = takeWhile is_digit u;
               r1 = dropWhile is_digit u;
               has_point = (r1 \<noteq> [] \<and> hd r1 = 46);
               fp = (if has_point then takeWhile is_digit (tl r1) else []);
               r2 = (if has_point then dropWhile is_digit (tl r1) else r1)
           in if ip = [] \<and> fp = [] then NaN
              else fl (of_int sg
                        * (of_int (digits_value 10 0 ip)
                           + of_int (digits_value 10 0 fp) / 10 ^ length fp)
                        * 10 powi exponent_part r2))"

text \<open>
  \<open>parseInt\<close> without a radix: skip leading white space, a sign, an optional \<open>0x\<close>
  prefix selecting radix 16, then the longest run of digits; NaN when the run is empty.
\<close>

definition is_hex_digit :: "int \<Rightarrow> bool" where
  "is_hex_digit c \<longleftrightarrow> is_digit c \<or> (97 \<le> c \<and> c \<le> 102) \<or> (65 \<le> c \<and> c \<le> 70)"

definition parseInt :: "jsstring \<Rightarrow> jsnum" where
  "parseInt s =
     (let (sg, u) = take_sign (trimStart s);
          hex = (starts_with (js ''0x'') u \<or> starts_with (js ''0X'') u);
          z = (if hex then takeWhile is_hex_digit (drop 2 u) else takeWhile is_digit u)
      in if z = [] then NaN
         else fl (of_int sg * of_int (digits_value (if hex then 16 else 10) 0 z)))"

text \<open>
  \<open>Number::toString\<close>: the shortest decimal digit string \<open>s\<close> (with \<open>k\<close> digits) and
  position \<open>n\<close> such that \<open>s * 10 ^ (n - k)\<close> rounds to the number; where ECMAScript
  leaves the last digit open, the candidate nearest to the number is taken.
\<close>

function decimal_length :: "int \<Rightarrow> int" where
  "decimal_length n = (if n < 10 then 1 else 1 + decimal_length (n div 10))"
  by pat_completeness auto
termination
  by (relation "measure nat") auto

declare decimal_length.simps [simp del]

definition ilog10 :: "rat \<Rightarrow> int" where
  "ilog10 x = (let (p, q) = quotient_of \<bar>x\<bar>;
                   k = decimal_length p - decimal_length q
               in if 10 powi k \<le> \<bar>x\<bar> then k else k - 1)"

definition digit_candidate :: "rat \<Rightarrow> nat \<Rightarrow> (int \<times> int) option" where
  "digit_candidate x k =
     (let n = ilog10 x + 1;
          scale = 10 powi (n - int k);
          lo = \<lfloor>x / scale\<rfloor>;
          ok_lo = (fl (of_int lo * scale) = Fin x);
          ok_hi = (fl (of_int (lo + 1) * scale) = Fin x);
          c = (if ok_lo \<and> (\<not> ok_hi \<or> x / scale - of_int lo \<le> of_int (lo + 1) - x / scale)
               then lo else lo + 1)
      in if \<not> ok_lo \<and> \<not> ok_hi then None
         else if c = 10 ^ k then Some (10 ^ (k - 1), n + 1)
         else Some (c, n))"

text \<open>
  The search tries 1, 2, ... digits; 17 digits always identify a double, so the last
  equation is not reached for one.
\<close>

primrec shortest_digits :: "nat \<Rightarrow> nat \<Rightarrow> rat \<Rightarrow> int \<times> int" where
  "shortest_digits 0 k x = (\<lfloor>x / 10 powi (ilog10 x + 1 - int k)\<rfloor>, ilog10 x + 1)"
| "shortest_digits (Suc fuel) k x =
     (case digit_candidate x k of Some c \<Rightarrow> c | None \<Rightarrow> shortest_digits fuel (Suc k) x)"

function int_digits :: "int \<Rightarrow> jsstring" where
  "int_digits n = (if n < 10 then [48 + n] else int_digits (n div 10) @ [48 + n mod 10])"
  by pat_completeness auto
termination
  by (relation "measure nat") auto

declare int_digits.simps [simp del]

definition positive_toString :: "rat \<Rightarrow> jsstring" where
  "positive_toString x =
     (let (s, n) = shortest_digits 17 1 x;
          ds = int_digits s;
          k = int (length ds)
      in if k \<le> n \<and> n \<le> 21 then ds @ replicate (nat (n - k)) 48
         else if 0 < n \<and> n \<le> 21 then take (nat n) ds @ [46] @ drop (nat n) ds
         else if - 6 < n \<and> n \<le> 0 then [48, 46] @ replicate (nat (- n)) 48 @ ds
         else (if k = 1 then ds else take 1 ds @ [46] @ drop 1 ds)
              @ [101] @ (if 0 \<le> n - 1 then [43] else [45]) @ int_digits \<bar>n - 1\<bar>)"

fun Number_toString :: "jsnum \<Rightarrow> jsstring" where
  "Number_toString NaN = js ''NaN''"
| "Number_toString PInf = js ''Infinity''"
| "Number_toString NInf = js ''-Infinity''"
| "Number_toString (Fin x) =
     (if x = 0 then js ''0''
      else if x < 0 then [45] @ positive_toString (- x)
      else positive_toString x)"

section \<open>JavaScript values\<close>

text \<open>
  The values a JSON request body can hold, and \<open>undefined\<close> for a property that is
  not there. An object is the list of its properties, one entry for each name.
\<close>

datatype jsval =
    JUndefined
  | JNull
  | JBool bool
  | JNum jsnum
  | JStr jsstring
  | JArr "jsval list"
  | JObj "(jsstring \<times> jsval) list"

text \<open>\<open>ToBoolean\<close>, as \<open>!v\<close> and \<open>if (v)\<close> apply it.\<close>

fun truthy :: "jsval \<Rightarrow> bool" where
  "truthy JUndefined = False"
| "truthy JNull = False"
| "truthy (JBool b) = b"
| "truthy (JNum x) = (x \<noteq> NaN \<and> x \<noteq> Fin 0)"
| "truthy (JStr s) = (s \<noteq> [])"
| "truthy (JArr xs) = True"
| "truthy (JObj fs) = True"

fun join_comma :: "jsstring list \<Rightarrow> jsstring" where
  "join_comma [] = []"
| "join_comma [s] = s"
| "join_comma (s # t # ss) = s @ [44] @ join_comma (t # ss)"

text \<open>The exceptions of the program: a rejected fetch, a body that cannot be read, a TypeError.\<close>

datatype exn = FetchError | BodyError | TypeError

text \<open>
  \<open>ToString\<close>, as a template literal and \<open>parseInt\<close> apply it to their argument; \<open>None\<close>
  is the TypeError it throws. A plain object prints as \<open>[object Object]\<close> through
  \<open>Object.prototype.toString\<close>, unless it has a property \<open>toString\<close> of its own: a JSON
  value is never callable, \<open>valueOf\<close> is tried next and yields no primitive (its own
  property is not callable either, the inherited one returns the object), and the
  conversion throws. An array joins the strings of its elements with commas, with the
  empty string for \<open>null\<close> and \<open>undefined\<close>, and throws when an element does.
\<close>

fun ToString :: "jsval \<Rightarrow> jsstring option" where
  "ToString JUndefined = Some (js ''undefined'')"
| "ToString JNull = Some (js ''null'')"
| "ToString (JBool b) = Some (if b then js ''true'' else js ''false'')"
| "ToString (JNum x) = Some (Number_toString x)"
| "ToString (JStr s) = Some s"
| "ToString (JArr xs) =
     map_option join_comma
       (those (map (\<lambda>v. if v = JUndefined \<or> v = JNull then Some [] else ToString v) xs))"
| "ToString (JObj fs) =
     (if map_of fs (js ''toString'') = None then Some (js ''[object Object]'') else None)"

text \<open>
  The destructuring \<open>const { brand, ... } = req.body\<close>: a property that is absent reads
  as \<open>undefined\<close>.
\<close>

definition field :: "(jsstring \<times> jsval) list \<Rightarrow> string \<Rightarrow> jsval" where
  "field body k = (case map_of body (js k) of Some v \<Rightarrow> v | None \<Rightarrow> JUndefined)"

text \<open>
  The property read \<open>v.k\<close> for the property names of the condition record (none of them
  is a built-in property of a string, an array or a plain object): a TypeError
  (\<open>None\<close>) on \<open>undefined\<close> and \<open>null\<close>, \<open>undefined\<close> on any value without the property.
\<close>

fun get_prop :: "jsval \<Rightarrow> string \<Rightarrow> jsval option" where
  "get_prop JUndefined k = None"
| "get_prop JNull k = None"
| "get_prop (JObj fs) k = Some (field fs k)"
| "get_prop v k = Some JUndefined"

section \<open>The competitor sites\<close>

text \<open>
  The pages come from outside and \<open>cheerio\<close> is a library: a page is represented by what
  the selector queries of the extractors return on it.
\<close>

record page =
  product_boxes :: nat
    \<comment> \<open>\<open>$('.product-box-container').length\<close>\<close>
  box_sell_price :: jsstring
    \<comment> \<open>\<open>$('.product-box-container').first().find('.sell-price .price').text()\<close>\<close>
  sell_price_info :: jsstring
    \<comment> \<open>\<open>$('.sell-price .price-info-row .price-info-val .price').first().text()\<close>\<close>
  product_price_now :: jsstring
    \<comment> \<open>\<open>$('.product-price-now').first().text()\<close>\<close>

text \<open>
  The outcome of \<open>fetch(url)\<close>: the promise rejects, or resolves to a response with a
  status and a body that \<open>response.text()\<close> delivers (\<open>Some\<close>) or fails to read (\<open>None\<close>).
\<close>

datatype fetch_result = Rejected | Resolved nat "page option"

definition response_ok :: "nat \<Rightarrow> bool" where
  "response_ok status \<longleftrightarrow> 200 \<le> status \<and> status < 300"

type_synonym network = "jsstring \<Rightarrow> fetch_result"

subsection \<open>server.js\<close>

text \<open>
  The search URLs, built by template literals inside the \<open>try\<close> block of each
  extractor; \<open>None\<close> when an argument cannot be converted to a string.
\<close>

definition cex_search_url :: "jsval \<Rightarrow> jsval \<Rightarrow> jsval \<Rightarrow> jsstring option" where
  "cex_search_url model storage grade = do {
     m \<leftarrow> ToString model;
     s \<leftarrow> ToString storage;
     g \<leftarrow> ToString grade;
     let searchQuery = replace_spaces (js ''+'') (m @ js '' '' @ s @ js '' Unlocked '' @ g);
     Some (js ''https://uk.webuy.com/search?stext='' @ searchQuery)
   }"

definition magpie_search_url :: "jsval \<Rightarrow> jsval \<Rightarrow> jsval \<Rightarrow> jsstring option" where
  "magpie_search_url brand model storage = do {
     b \<leftarrow> ToString brand;
     m \<leftarrow> ToString model;
     s \<leftarrow> ToString storage;
     let searchQuery = replace_spaces (js ''%20'') (b @ js '' '' @ m @ js '' '' @ s);
     Some (js ''https://www.musicmagpie.co.uk/sell-mobile-phones/search/?keyword='' @ searchQuery)
   }"

text \<open>
  Each extractor returns its price together with the URLs it fetched. The body of the
  \<open>try\<close> block is a function of its own, with the exceptions as \<open>Inl\<close>; the
  extractor is the \<open>catch\<close> around it. When the URL cannot be built nothing is fetched.
\<close>

definition getCeXPrice_try ::
    "network \<Rightarrow> jsval \<Rightarrow> jsval \<Rightarrow> jsval \<Rightarrow> (exn + jsnum) \<times> jsstring list" where
  "getCeXPrice_try net model storage grade =
     (case cex_search_url model storage grade of
        None \<Rightarrow> (Inl TypeError, [])
      | Some url \<Rightarrow>
          (case net url of
             Rejected \<Rightarrow> Inl FetchError
           | Resolved status body \<Rightarrow>
               if \<not> response_ok status then Inr (Fin 0)
               else (case body of
                       None \<Rightarrow> Inl BodyError
                     | Some html \<Rightarrow>
                         if product_boxes html = 0 then Inr (Fin 0)
                         else
                           let priceText = box_sell_price html
                           in if priceText \<noteq> []
                              then let price = parseFloat (strip_non_numeric priceText)
                                   in Inr (if isNaN price then Fin 0 else price)
                              else Inr (Fin 0)),
           [url]))"

definition getCeXPrice :: "network \<Rightarrow> jsval \<Rightarrow> jsval \<Rightarrow> jsval \<Rightarrow> jsnum \<times> jsstring list" where
  "getCeXPrice net model storage grade =
     (case getCeXPrice_try net model storage grade of
        (Inr price, urls) \<Rightarrow> (price, urls)
      | (Inl error, urls) \<Rightarrow> (Fin 0, urls))"

definition getMusicMagpiePrice_try ::
    "network \<Rightarrow> jsval \<Rightarrow> jsval \<Rightarrow> jsval \<Rightarrow> (exn + jsnum) \<times> jsstring list" where
  "getMusicMagpiePrice_try net brand model storage =
     (case magpie_search_url brand model storage of
        None \<Rightarrow> (Inl TypeError, [])
      | Some url \<Rightarrow>
          (case net url of
             Rejected \<Rightarrow> Inl FetchError
           | Resolved status body \<Rightarrow>
               (case body of
                  None \<Rightarrow> Inl BodyError
                | Some html \<Rightarrow>
                    let priceText = trim (product_price_now html)
                    in if priceText \<noteq> []
                       then let price = parseFloat (strip_non_numeric priceText)
                            in Inr (if isNaN price then Fin 0 else price)
                       else Inr (Fin 0)),
           [url]))"

definition getMusicMagpiePrice ::
    "network \<Rightarrow> jsval \<Rightarrow> jsval \<Rightarrow> jsval \<Rightarrow> jsnum \<times> jsstring list" where
  "getMusicMagpiePrice net brand model storage =
     (case getMusicMagpiePrice_try net brand model storage of
        (Inr price, urls) \<Rightarrow> (price, urls)
      | (Inl error, urls) \<Rightarrow> (Fin 0, urls))"

text \<open>
  \<open>Math.floor(Math.random() * 25) + 5\<close>, the same expression in both files; \<open>random\<close> is
  the value \<open>Math.random()\<close> returns, a double with \<open>0 \<le> random < 1\<close>.
\<close>

definition is_draw :: "rat \<Rightarrow> bool" where
  "is_draw random \<longleftrightarrow> is_double random \<and> 0 \<le> random \<and> random < 1"

definition random_bonus :: "rat \<Rightarrow> jsnum" where
  "random_bonus random = js_add (Math_floor (js_mul (Fin random) (Fin 25))) (Fin 5)"

datatype http_response = Response nat jsval

definition no_offer_message :: jsstring where
  "no_offer_message = js ''Sorry, we couldn't find a price for this model right now.''"

text \<open>
  The line the handler logs after validation and before its \<open>try\<close> block:
  \<open>`Scraping for: ${grade} Grade ${brand} ${model} ${storage}`\<close>.
\<close>

definition scraping_for :: "jsval \<Rightarrow> jsval \<Rightarrow> jsval \<Rightarrow> jsval \<Rightarrow> jsstring option" where
  "scraping_for grade brand model storage = do {
     g \<leftarrow> ToString grade;
     b \<leftarrow> ToString brand;
     m \<leftarrow> ToString model;
     s \<leftarrow> ToString storage;
     Some (js ''Scraping for: '' @ g @ js '' Grade '' @ b @ js '' '' @ m @ js '' '' @ s)
   }"

text \<open>
  The handler of \<open>POST /api/get-quote\<close>: from the network, the random draw and the
  properties of \<open>req.body\<close> to its outcome and the URLs fetched. The outcome is the
  response it sends (\<open>Inr\<close>), or the exception that leaves it without any response
  sent (\<open>Inl\<close>): the log line stands outside the \<open>try\<close> block, so a TypeError of its
  template literal is not caught. Inside the \<open>try\<close> block no step can throw, since both
  extractors always return; its \<open>catch\<close> (status 500) therefore has no branch here.
\<close>

definition get_quote ::
    "network \<Rightarrow> rat \<Rightarrow> (jsstring \<times> jsval) list \<Rightarrow> (exn + http_response) \<times> jsstring list" where
  "get_quote net random body =
     (let brand = field body ''brand''; model = field body ''model'';
          storage = field body ''storage''; grade = field body ''grade''
      in if \<not> truthy brand \<or> \<not> truthy model \<or> \<not> truthy storage \<or> \<not> truthy grade
         then (Inr (Response 400
                 (JObj [(js ''error'', JStr (js ''Please provide all device details, including grade.''))])),
               [])
         else
           (case scraping_for grade brand model storage of
              None \<Rightarrow> (Inl TypeError, [])
            | Some line \<Rightarrow>
                let (cexPrice, urls1) = getCeXPrice net model storage grade;
                    (musicMagpiePrice, urls2) = getMusicMagpiePrice net brand model storage;
                    highestCompetitorPrice = Math_max cexPrice musicMagpiePrice
                in if js_le highestCompetitorPrice (Fin 0)
                   then (Inr (Response 200
                           (JObj [(js ''ourPrice'', JNum (Fin 0)),
                                  (js ''cexPrice'', JNum cexPrice),
                                  (js ''musicMagpiePrice'', JNum musicMagpiePrice),
                                  (js ''message'', JStr no_offer_message)])),
                         urls1 @ urls2)
                   else
                     let basePrice = highestCompetitorPrice;
                         finalOffer = js_add (Math_round basePrice) (random_bonus random)
                     in (Inr (Response 200
                           (JObj [(js ''ourPrice'', JNum finalOffer),
                                  (js ''cexPrice'', JNum cexPrice),
                                  (js ''musicMagpiePrice'', JNum musicMagpiePrice)])),
                         urls1 @ urls2)))"

subsection \<open>The earlier version of the server (condition record instead of grade)\<close>

definition cex_search_url_v1 :: "jsval \<Rightarrow> jsval \<Rightarrow> jsstring option" where
  "cex_search_url_v1 model storage = do {
     m \<leftarrow> ToString model;
     s \<leftarrow> ToString storage;
     let searchQuery = replace_spaces (js ''+'') (m @ js '' '' @ s);
     Some (js ''https://uk.webuy.com/search?stext='' @ searchQuery)
   }"

definition getCeXPrice_v1_try ::
    "network \<Rightarrow> jsval \<Rightarrow> jsval \<Rightarrow> (exn + jsnum) \<times> jsstring list" where
  "getCeXPrice_v1_try net model storage =
     (case cex_search_url_v1 model storage of
        None \<Rightarrow> (Inl TypeError, [])
      | Some url \<Rightarrow>
          (case net url of
             Rejected \<Rightarrow> Inl FetchError
           | Resolved status body \<Rightarrow>
               (case body of
                  None \<Rightarrow> Inl BodyError
                | Some html \<Rightarrow>
                    let priceText = sell_price_info html
                    in if priceText \<noteq> []
                       then let price = parseFloat (remove_first pound priceText)
                            in Inr (if isNaN price then Fin 0 else price)
                       else Inr (Fin 0)),
           [url]))"

definition getCeXPrice_v1 :: "network \<Rightarrow> jsval \<Rightarrow> jsval \<Rightarrow> jsnum \<times> jsstring list" where
  "getCeXPrice_v1 net model storage =
     (case getCeXPrice_v1_try net model storage of
        (Inr price, urls) \<Rightarrow> (price, urls)
      | (Inl error, urls) \<Rightarrow> (Fin 0, urls))"

text \<open>The MusicMagpie URL is built by the same two lines as in \<open>server.js\<close>.\<close>

definition getMusicMagpiePrice_v1_try ::
    "network \<Rightarrow> jsval \<Rightarrow> jsval \<Rightarrow> jsval \<Rightarrow> (exn + jsnum) \<times> jsstring list" where
  "getMusicMagpiePrice_v1_try net brand model storage =
     (case magpie_search_url brand model storage of
        None \<Rightarrow> (Inl TypeError, [])
      | Some url \<Rightarrow>
          (case net url of
             Rejected \<Rightarrow> Inl FetchError
           | Resolved status body \<Rightarrow>
               (case body of
                  None \<Rightarrow> Inl BodyError
                | Some html \<Rightarrow>
                    let priceText = trim (product_price_now html)
                    in if priceText \<noteq> []
                       then let price = parseFloat (remove_first pound priceText)
                            in Inr (if isNaN price then Fin 0 else price)
                       else Inr (Fin 0)),
           [url]))"

definition getMusicMagpiePrice_v1 ::
    "network \<Rightarrow> jsval \<Rightarrow> jsval \<Rightarrow> jsval \<Rightarrow> jsnum \<times> jsstring list" where
  "getMusicMagpiePrice_v1 net brand model storage =
     (case getMusicMagpiePrice_v1_try net brand model storage of
        (Inr price, urls) \<Rightarrow> (price, urls)
      | (Inl error, urls) \<Rightarrow> (Fin 0, urls))"

text \<open>
  The condition logic, statement by statement on the running \<open>basePrice\<close>. A property
  read throws on \<open>undefined\<close> and \<open>null\<close>, and \<open>parseInt\<close> throws when its argument
  cannot be converted to a string; \<open>None\<close> is that TypeError.
\<close>

definition apply_condition :: "jsval \<Rightarrow> jsnum \<Rightarrow> jsnum option" where
  "apply_condition condition highestCompetitorPrice = do {
     let basePrice = highestCompetitorPrice;
     screen \<leftarrow> get_prop condition ''screen_condition'';
     screenText \<leftarrow> ToString screen;
     let basePrice = js_sub basePrice
           (js_mul (js_sub (Fin 4) (parseInt screenText)) (js_mul basePrice (lit (15 / 100))));
     body \<leftarrow> get_prop condition ''body_condition'';
     bodyText \<leftarrow> ToString body;
     let basePrice = js_sub basePrice
           (js_mul (js_sub (Fin 4) (parseInt bodyText)) (js_mul basePrice (lit (1 / 10))));
     functional \<leftarrow> get_prop condition ''fully_functional'';
     let basePrice = (if \<not> truthy functional then js_mul basePrice (lit (4 / 10)) else basePrice);
     camera \<leftarrow> get_prop condition ''camera_works'';
     let basePrice = (if \<not> truthy camera then js_mul basePrice (lit (8 / 10)) else basePrice);
     battery \<leftarrow> get_prop condition ''battery_health'';
     let basePrice = (if \<not> truthy battery then js_mul basePrice (lit (9 / 10)) else basePrice);
     box \<leftarrow> get_prop condition ''original_box'';
     let basePrice = (if truthy box then js_add basePrice (Fin 10) else basePrice);
     charger \<leftarrow> get_prop condition ''charger_included'';
     let basePrice = (if truthy charger then js_add basePrice (Fin 5) else basePrice);
     Some basePrice
   }"

text \<open>The \<open>try\<close> block of the handler after both prices have arrived.\<close>

definition quote_v1_try :: "rat \<Rightarrow> jsval \<Rightarrow> jsnum \<Rightarrow> jsnum \<Rightarrow> http_response option" where
  "quote_v1_try random condition cexPrice musicMagpiePrice =
     (let highestCompetitorPrice = Math_max cexPrice musicMagpiePrice
      in if js_le highestCompetitorPrice (Fin 0)
         then Some (Response 200
                (JObj [(js ''ourPrice'', JNum (Fin 0)),
                       (js ''cexPrice'', JNum cexPrice),
                       (js ''musicMagpiePrice'', JNum musicMagpiePrice),
                       (js ''message'', JStr no_offer_message)]))
         else do {
           basePrice \<leftarrow> apply_condition condition highestCompetitorPrice;
           let finalOffer = js_add (Math_round basePrice) (random_bonus random);
           Some (Response 200
                (JObj [(js ''ourPrice'', JNum finalOffer),
                       (js ''cexPrice'', JNum cexPrice),
                       (js ''musicMagpiePrice'', JNum musicMagpiePrice)]))
         })"

text \<open>The log line of this version: \<open>`Scraping for: ${brand} ${model} ${storage}`\<close>.\<close>

definition scraping_for_v1 :: "jsval \<Rightarrow> jsval \<Rightarrow> jsval \<Rightarrow> jsstring option" where
  "scraping_for_v1 brand model storage = do {
     b \<leftarrow> ToString brand;
     m \<leftarrow> ToString model;
     s \<leftarrow> ToString storage;
     Some (js ''Scraping for: '' @ b @ js '' '' @ m @ js '' '' @ s)
   }"

text \<open>
  The handler: as in \<open>server.js\<close> a TypeError of the log line leaves it uncaught; an
  exception of the condition logic is caught and answered with status 500.
\<close>

definition get_quote_v1 ::
    "network \<Rightarrow> rat \<Rightarrow> (jsstring \<times> jsval) list \<Rightarrow> (exn + http_response) \<times> jsstring list" where
  "get_quote_v1 net random body =
     (let brand = field body ''brand''; model = field body ''model'';
          storage = field body ''storage''; condition = field body ''condition''
      in if \<not> truthy brand \<or> \<not> truthy model \<or> \<not> truthy storage \<or> \<not> truthy condition
         then (Inr (Response 400
                 (JObj [(js ''error'', JStr (js ''Please provide all device details.''))])),
               [])
         else
           (case scraping_for_v1 brand model storage of
              None \<Rightarrow> (Inl TypeError, [])
            | Some line \<Rightarrow>
                let (cexPrice, urls1) = getCeXPrice_v1 net model storage;
                    (musicMagpiePrice, urls2) = getMusicMagpiePrice_v1 net brand model storage
                in (case quote_v1_try random condition cexPrice musicMagpiePrice of
                      Some response \<Rightarrow> Inr response
                    | None \<Rightarrow>
                        Inr (Response 500
                          (JObj [(js ''error'', JStr (js ''An internal server error occurred.''))])),
                    urls1 @ urls2)))"

section \<open>The condition adjustment in arithmetic\<close>

text \<open>
  The condition record of the specification: two grades from 1 to 4 and five flags.
  \<open>condition_json\<close> is the JSON object a client sends for it.
\<close>

record condition =
  screen_condition :: int
  body_condition :: int
  fully_functional :: bool
  camera_works :: bool
  battery_health :: bool
  original_box :: bool
  charger_included :: bool

definition condition_json :: "condition \<Rightarrow> jsval" where
  "condition_json c = JObj
     [(js ''screen_condition'', JNum (Fin (of_int (screen_condition c)))),
      (js ''body_condition'', JNum (Fin (of_int (body_condition c)))),
      (js ''fully_functional'', JBool (fully_functional c)),
      (js ''camera_works'', JBool (camera_works c)),
      (js ''battery_health'', JBool (battery_health c)),
      (js ''original_box'', JBool (original_box c)),
      (js ''charger_included'', JBool (charger_included c))]"

text \<open>
  The steps are written here on rationals, with the rounding of each operation made
  explicit: \<open>rd x\<close> is the double nearest to \<open>x\<close>, when that is finite.
\<close>

definition rd :: "rat \<Rightarrow> rat option" where
  "rd x = (case fl x of Fin y \<Rightarrow> Some y | _ \<Rightarrow> None)"

text \<open>
  Steps 1 and 2 as the specification words them,
  \<open>basePrice -= (4 - grade) * basePrice * rate\<close>: the product is taken from left to
  right.
\<close>

definition deduct_as_specified :: "rat \<Rightarrow> int \<Rightarrow> rat \<Rightarrow> rat option" where
  "deduct_as_specified rate grade basePrice = do {
     r \<leftarrow> rd rate;
     a \<leftarrow> rd (of_int (4 - grade) * basePrice);
     d \<leftarrow> rd (a * r);
     rd (basePrice - d)
   }"

text \<open>
  Steps 1 and 2 with the base price multiplied by the rate first,
  \<open>basePrice -= (4 - grade) * (basePrice * rate)\<close>.
\<close>

definition deduct_rate_first :: "rat \<Rightarrow> int \<Rightarrow> rat \<Rightarrow> rat option" where
  "deduct_rate_first rate grade basePrice = do {
     r \<leftarrow> rd rate;
     a \<leftarrow> rd (basePrice * r);
     d \<leftarrow> rd (of_int (4 - grade) * a);
     rd (basePrice - d)
   }"

definition scale_if :: "bool \<Rightarrow> rat \<Rightarrow> rat \<Rightarrow> rat option" where
  "scale_if applies rate basePrice =
     (if applies then do { r \<leftarrow> rd rate; rd (basePrice * r) } else Some basePrice)"

definition add_if :: "bool \<Rightarrow> rat \<Rightarrow> rat \<Rightarrow> rat option" where
  "add_if applies amount basePrice = (if applies then rd (basePrice + amount) else Some basePrice)"

text \<open>Steps 1 to 5 (the deductions and the factors) and steps 6 and 7 (the additions).\<close>

definition steps_1_to_5 ::
    "(rat \<Rightarrow> int \<Rightarrow> rat \<Rightarrow> rat option) \<Rightarrow> condition \<Rightarrow> rat \<Rightarrow> rat option" where
  "steps_1_to_5 deduct c baseline = do {
     b1 \<leftarrow> deduct (15 / 100) (screen_condition c) baseline;
     b2 \<leftarrow> deduct (10 / 100) (body_condition c) b1;
     b3 \<leftarrow> scale_if (\<not> fully_functional c) (4 / 10) b2;
     b4 \<leftarrow> scale_if (\<not> camera_works c) (8 / 10) b3;
     scale_if (\<not> battery_health c) (9 / 10) b4
   }"

definition steps_6_to_7 :: "condition \<Rightarrow> rat \<Rightarrow> rat option" where
  "steps_6_to_7 c basePrice = do {
     b6 \<leftarrow> add_if (original_box c) 10 basePrice;
     add_if (charger_included c) 5 b6
   }"

text \<open>
  The offer: the seven steps, then \<open>round(basePrice)\<close> (halves go up) plus the bonus
  \<open>floor(v) + 5\<close>, where \<open>v\<close> is the product of the draw and 25 as a double.
\<close>

definition offer_by ::
    "(rat \<Rightarrow> int \<Rightarrow> rat \<Rightarrow> rat option) \<Rightarrow> condition \<Rightarrow> rat \<Rightarrow> rat \<Rightarrow> jsnum option" where
  "offer_by deduct c baseline v = do {
     b5 \<leftarrow> steps_1_to_5 deduct c baseline;
     b7 \<leftarrow> steps_6_to_7 c b5;
     Some (fl (of_int (\<lfloor>b7 + 1 / 2\<rfloor> + \<lfloor>v\<rfloor> + 5)))
   }"

definition pristine :: condition where
  "pristine = \<lparr>screen_condition = 4, body_condition = 4, fully_functional = True,
      camera_works = True, battery_health = True, original_box = False, charger_included = False\<rparr>"

definition worn :: condition where
  "worn = \<lparr>screen_condition = 3, body_condition = 2, fully_functional = False,
      camera_works = False, battery_health = True, original_box = True, charger_included = True\<rparr>"

section \<open>Reading an outcome; sample requests and sites\<close>

fun status :: "http_response \<Rightarrow> nat" where
  "status (Response st payload) = st"

fun payload_field :: "http_response \<Rightarrow> string \<Rightarrow> jsval" where
  "payload_field (Response st (JObj fs)) k = field fs k"
| "payload_field (Response st v) k = JUndefined"

text \<open>A page on which every price query returns the given text, in one product box.\<close>

definition page_with :: "jsstring \<Rightarrow> page" where
  "page_with t = \<lparr>product_boxes = 1, box_sell_price = t, sell_price_info = t, product_price_now = t\<rparr>"

text \<open>A network with one reply for the CeX search and one for the MusicMagpie search.\<close>

definition site :: "fetch_result \<Rightarrow> fetch_result \<Rightarrow> network" where
  "site cex musicMagpie url =
     (if starts_with (js ''https://uk.webuy.com/'') url then cex else musicMagpie)"

text \<open>
  Sample networks: CeX shows 100.00 and MusicMagpie 80.00 (in pounds); CeX shows 99.50
  and MusicMagpie 80.00; both requests fail; CeX shows the text \<open>-\<pounds>5.00\<close> and
  MusicMagpie the text \<open>\<pounds>5.00 - \<pounds>10.00\<close>; CeX shows a price with fifteen decimals.
\<close>

definition two_prices :: network where
  "two_prices = site (Resolved 200 (Some (page_with (pound # js ''100.00''))))
                     (Resolved 200 (Some (page_with (pound # js ''80.00''))))"

definition half_pound_prices :: network where
  "half_pound_prices = site (Resolved 200 (Some (page_with (pound # js ''99.50''))))
                            (Resolved 200 (Some (page_with (pound # js ''80.00''))))"

definition unreachable :: network where
  "unreachable = site Rejected Rejected"

definition minus_prices :: network where
  "minus_prices = site (Resolved 200 (Some (page_with ([45, pound] @ js ''5.00''))))
                       (Resolved 200 (Some (page_with
                          (pound # js ''5.00 - '' @ pound # js ''10.00''))))"

definition long_price :: network where
  "long_price = site (Resolved 200 (Some (page_with (pound # js ''13.636363636363635'')))) Rejected"

definition phone :: "(jsstring \<times> jsval) list" where
  "phone = [(js ''brand'', JStr (js ''Apple'')), (js ''model'', JStr (js ''iPhone 14 Pro'')),
            (js ''storage'', JStr (js ''128GB''))]"

definition graded_request :: "(jsstring \<times> jsval) list" where
  "graded_request = phone @ [(js ''grade'', JStr (js ''A''))]"

definition condition_request :: "jsval \<Rightarrow> (jsstring \<times> jsval) list" where
  "condition_request c = phone @ [(js ''condition'', c)]"

text \<open>
  The validation guard of each handler; whether its log line is written without an
  exception, so that the extractors are called; and the two prices scraped for a request.
\<close>

definition valid_request :: "(jsstring \<times> jsval) list \<Rightarrow> bool" where
  "valid_request body \<longleftrightarrow> truthy (field body ''brand'') \<and> truthy (field body ''model'')
     \<and> truthy (field body ''storage'') \<and> truthy (field body ''grade'')"

definition valid_request_v1 :: "(jsstring \<times> jsval) list \<Rightarrow> bool" where
  "valid_request_v1 body \<longleftrightarrow> truthy (field body ''brand'') \<and> truthy (field body ''model'')
     \<and> truthy (field body ''storage'') \<and> truthy (field body ''condition'')"

definition printable_request :: "(jsstring \<times> jsval) list \<Rightarrow> bool" where
  "printable_request body \<longleftrightarrow>
     scraping_for (field body ''grade'') (field body ''brand'') (field body ''model'')
       (field body ''storage'') \<noteq> None"

definition printable_request_v1 :: "(jsstring \<times> jsval) list \<Rightarrow> bool" where
  "printable_request_v1 body \<longleftrightarrow>
     scraping_for_v1 (field body ''brand'') (field body ''model'') (field body ''storage'') \<noteq> None"

definition cex_price :: "network \<Rightarrow> (jsstring \<times> jsval) list \<Rightarrow> jsnum" where
  "cex_price net body =
     fst (getCeXPrice net (field body ''model'') (field body ''storage'') (field body ''grade''))"

definition magpie_price :: "network \<Rightarrow> (jsstring \<times> jsval) list \<Rightarrow> jsnum" where
  "magpie_price net body =
     fst (getMusicMagpiePrice net (field body ''brand'') (field body ''model'') (field body ''storage''))"

definition cex_price_v1 :: "network \<Rightarrow> (jsstring \<times> jsval) list \<Rightarrow> jsnum" where
  "cex_price_v1 net body = fst (getCeXPrice_v1 net (field body ''model'') (field body ''storage''))"

definition magpie_price_v1 :: "network \<Rightarrow> (jsstring \<times> jsval) list \<Rightarrow> jsnum" where
  "magpie_price_v1 net body =
     fst (getMusicMagpiePrice_v1 net (field body ''brand'') (field body ''model'') (field body ''storage''))"

text \<open>
  A scraped price is at most a rational \<open>b\<close>; and \<open>b\<close> is the larger of two scraped
  prices, both of them below infinity.
\<close>

definition at_most :: "jsnum \<Rightarrow> rat \<Rightarrow> bool" where
  "at_most p b \<longleftrightarrow> (case p of Fin x \<Rightarrow> x \<le> b | NInf \<Rightarrow> True | _ \<Rightarrow> False)"

definition larger_price :: "jsnum \<Rightarrow> jsnum \<Rightarrow> rat \<Rightarrow> bool" where
  "larger_price p q b \<longleftrightarrow> (p = Fin b \<or> q = Fin b) \<and> at_most p b \<and> at_most q b"

text \<open>The first character that \<open>parseFloat\<close> reads in a string is a minus sign.\<close>

definition leading_minus :: "jsstring \<Rightarrow> bool" where
  "leading_minus s \<longleftrightarrow> (case trimStart s of [] \<Rightarrow> False | c # r \<Rightarrow> c = 45)"

text \<open>A scraped price is below zero.\<close>

definition negative :: "jsnum \<Rightarrow> bool" where
  "negative p \<longleftrightarrow> (case p of Fin x \<Rightarrow> x < 0 | NInf \<Rightarrow> True | _ \<Rightarrow> False)"

section \<open>Rounding to a double: exponent and mantissa\<close>

definition fexp :: "rat \<Rightarrow> int" where
  "fexp x = max (ilog2 x) (- 1022)"

definition fman :: "rat \<Rightarrow> int" where
  "fman x = round_half_even (x / 2 powi (fexp x - 52))"

section \<open>Properties of rounding\<close>

lemma ilog2_bounds:
  assumes "x \<noteq> 0"
  shows "2 powi (ilog2 x) \<le> \<bar>x\<bar>" and "\<bar>x\<bar> < 2 powi (ilog2 x + 1)"
proof -
  obtain p q where pq: "quotient_of \<bar>x\<bar> = (p, q)" by (cases "quotient_of \<bar>x\<bar>")
  have q: "0 < q" using pq by (rule quotient_of_denom_pos)
  have x: "\<bar>x\<bar> = of_int p / of_int q" using pq by (rule quotient_of_div)
  have p: "0 < p"
  proof (rule ccontr)
    assume "\<not> 0 < p"
    then have "of_int p / (of_int q :: rat) \<le> 0" using q by (simp add: divide_nonpos_pos)
    with x assms show False by simp
  qed
  define a where "a = bitlen p"
  define b where "b = bitlen q"
  have a1: "1 \<le> a" using p bitlen_eq_zero_iff[of p] bitlen_nonneg[of p] by (simp add: a_def)
  have b1: "1 \<le> b" using q bitlen_eq_zero_iff[of q] bitlen_nonneg[of q] by (simp add: b_def)
  have pa0: "2 ^ nat (a - 1) \<le> p" "p < 2 ^ nat a" using bitlen_bounds[OF p] by (simp_all add: a_def)
  have qb0: "2 ^ nat (b - 1) \<le> q" "q < 2 ^ nat b" using bitlen_bounds[OF q] by (simp_all add: b_def)
  have "(of_int (2 ^ nat (a - 1)) :: rat) \<le> of_int p" using pa0(1) by (simp only: of_int_le_iff)
  then have pa1: "2 powi (a - 1) \<le> (of_int p :: rat)" using a1 by (simp add: power_int_def)
  have "(of_int p :: rat) < of_int (2 ^ nat a)" using pa0(2) by (simp only: of_int_less_iff)
  then have pa2: "(of_int p :: rat) < 2 powi a" using a1 by (simp add: power_int_def)
  have "(of_int (2 ^ nat (b - 1)) :: rat) \<le> of_int q" using qb0(1) by (simp only: of_int_le_iff)
  then have qb1: "2 powi (b - 1) \<le> (of_int q :: rat)" using b1 by (simp add: power_int_def)
  have "(of_int q :: rat) < of_int (2 ^ nat b)" using qb0(2) by (simp only: of_int_less_iff)
  then have qb2: "(of_int q :: rat) < 2 powi b" using b1 by (simp add: power_int_def)
  have pos: "\<And>k. (0::rat) < 2 powi k" by simp
  have "of_int p / of_int q < (2::rat) powi a / 2 powi (b - 1)"
    using p pa2 pos qb1 by (intro frac_less) simp_all
  also have "(2::rat) powi a / 2 powi (b - 1) = 2 powi (a - b + 1)"
    by (simp add: power_int_diff [symmetric] algebra_simps)
  finally have up: "\<bar>x\<bar> < 2 powi (a - b + 1)" by (simp add: x)
  have "(2::rat) powi (a - 1) / 2 powi b < of_int p / of_int q"
    using q pa1 pos qb2 by (intro frac_less2) simp_all
  moreover have "(2::rat) powi (a - 1) / 2 powi b = 2 powi (a - b - 1)"
    by (simp add: power_int_diff [symmetric] algebra_simps)
  ultimately have lo: "2 powi (a - b - 1) < \<bar>x\<bar>" by (simp add: x)
  have e: "ilog2 x = (if 2 powi (a - b) \<le> \<bar>x\<bar> then a - b else a - b - 1)"
    by (simp add: ilog2_def pq a_def b_def Let_def)
  show "2 powi (ilog2 x) \<le> \<bar>x\<bar>" using lo by (simp add: e)
  show "\<bar>x\<bar> < 2 powi (ilog2 x + 1)" using up by (auto simp add: e)
qed


lemma powi2_split: "(2::rat) powi (a + b) = 2 powi a * 2 powi b"
  by (rule power_int_add) simp

lemma rhe_of_int: "round_half_even (of_int k) = k"
  by (simp add: round_half_even_def)

lemma rhe_cases:
  "round_half_even y = \<lfloor>y\<rfloor> \<or> round_half_even y = \<lfloor>y\<rfloor> + 1"
  by (simp add: round_half_even_def Let_def)

lemma rhe_mono:
  assumes "a \<le> b"
  shows "round_half_even a \<le> round_half_even b"
proof (cases "\<lfloor>a\<rfloor> = \<lfloor>b\<rfloor>")
  case True
  have "a - of_int \<lfloor>b\<rfloor> \<le> b - of_int \<lfloor>b\<rfloor>" using assms by simp
  then show ?thesis by (auto simp add: round_half_even_def Let_def True)
next
  case False
  have "\<lfloor>a\<rfloor> \<le> \<lfloor>b\<rfloor>" using assms by (rule floor_mono)
  with False have "\<lfloor>a\<rfloor> + 1 \<le> \<lfloor>b\<rfloor>" by simp
  moreover have "round_half_even a \<le> \<lfloor>a\<rfloor> + 1" using rhe_cases[of a] by auto
  moreover have "\<lfloor>b\<rfloor> \<le> round_half_even b" using rhe_cases[of b] by auto
  ultimately show ?thesis by linarith
qed

lemma rhe_le_int: "y \<le> of_int k \<Longrightarrow> round_half_even y \<le> k"
  using rhe_mono[of y "of_int k"] by (simp add: rhe_of_int)

lemma rhe_ge_int: "of_int k \<le> y \<Longrightarrow> k \<le> round_half_even y"
  using rhe_mono[of "of_int k" y] by (simp add: rhe_of_int)

lemma fl_pos:
  assumes "0 < x"
  shows "fl x = (if 1024 \<le> fexp x \<or> fexp x = 1023 \<and> 9007199254740992 \<le> fman x
                 then PInf else Fin (of_int (fman x) * 2 powi (fexp x - 52)))"
    and "0 \<le> fman x" and "fman x \<le> 9007199254740992"
    and "- 1022 \<le> ilog2 x \<Longrightarrow> 4503599627370496 \<le> fman x"
proof -
  have x0: "x \<noteq> 0" "\<bar>x\<bar> = x" using assms by simp_all
  have q: "(0::rat) < 2 powi (fexp x - 52)" by simp
  have "0 \<le> x / 2 powi (fexp x - 52)" using assms by simp
  then show m0: "0 \<le> fman x" unfolding fman_def using rhe_ge_int[of 0] by simp
  have "fl x = (if 1024 \<le> fexp x \<or> fexp x = 1023 \<and> 9007199254740992 \<le> \<bar>fman x\<bar>
                then (if 0 < x then PInf else NInf)
                else Fin (of_int (fman x) * 2 powi (fexp x - 52)))"
    unfolding fl_def Let_def fexp_def fman_def using x0(1) by (simp only: if_False)
  then show "fl x = (if 1024 \<le> fexp x \<or> fexp x = 1023 \<and> 9007199254740992 \<le> fman x
                 then PInf else Fin (of_int (fman x) * 2 powi (fexp x - 52)))"
    using assms m0 by (simp only: abs_of_nonneg if_True)
  have "x < 2 powi (ilog2 x + 1)" using ilog2_bounds(2)[OF x0(1)] x0(2) by simp
  also have "\<dots> \<le> 2 powi (fexp x + 1)"
    by (rule power_int_increasing) (simp_all add: fexp_def)
  also have "\<dots> = 9007199254740992 * 2 powi (fexp x - 52)"
    using powi2_split[of 53 "fexp x - 52"] by (simp add: add.commute)
  finally have "x / 2 powi (fexp x - 52) < 9007199254740992"
    using q by (simp add: pos_divide_less_eq)
  then have "x / 2 powi (fexp x - 52) \<le> of_int 9007199254740992" by simp
  then show "fman x \<le> 9007199254740992" unfolding fman_def by (rule rhe_le_int)
  assume n: "- 1022 \<le> ilog2 x"
  then have e: "fexp x = ilog2 x" by (simp add: fexp_def)
  have "4503599627370496 * 2 powi (fexp x - 52) = (2::rat) powi (ilog2 x)"
    using powi2_split[of 52 "fexp x - 52"] by (simp add: e)
  also have "\<dots> \<le> x" using ilog2_bounds(1)[OF x0(1)] x0(2) by simp
  finally have "4503599627370496 \<le> x / 2 powi (fexp x - 52)"
    using q by (simp add: pos_le_divide_eq)
  then have "of_int 4503599627370496 \<le> x / 2 powi (fexp x - 52)" by simp
  then show "4503599627370496 \<le> fman x" unfolding fman_def by (rule rhe_ge_int)
qed

lemma powi2_less_D:
  assumes "(2::rat) powi a < 2 powi b"
  shows "a < b"
proof (rule ccontr)
  assume "\<not> a < b"
  then have "b \<le> a" by simp
  then have "(2::rat) powi b \<le> 2 powi a" by (intro power_int_increasing) simp_all
  with assms show False by simp
qed

lemma ilog2_mono:
  assumes "0 < x" "x \<le> y"
  shows "ilog2 x \<le> ilog2 y"
proof -
  have "2 powi (ilog2 x) \<le> x" using ilog2_bounds(1)[of x] assms by simp
  also have "x \<le> y" by fact
  also have "y < 2 powi (ilog2 y + 1)" using ilog2_bounds(2)[of y] assms by simp
  finally have "(2::rat) powi (ilog2 x) < 2 powi (ilog2 y + 1)" .
  then have "ilog2 x < ilog2 y + 1" by (rule powi2_less_D)
  then show ?thesis by simp
qed


lemma fl_mono_pos:
  assumes "0 < x" "x \<le> y"
  shows "js_le (fl x) (fl y)"
proof -
  have y: "0 < y" using assms by simp
  define ox where "ox \<longleftrightarrow> 1024 \<le> fexp x \<or> fexp x = 1023 \<and> 9007199254740992 \<le> fman x"
  define oy where "oy \<longleftrightarrow> 1024 \<le> fexp y \<or> fexp y = 1023 \<and> 9007199254740992 \<le> fman y"
  define vx where "vx = of_int (fman x) * (2::rat) powi (fexp x - 52)"
  define vy where "vy = of_int (fman y) * (2::rat) powi (fexp y - 52)"
  have flx: "fl x = (if ox then PInf else Fin vx)"
    unfolding ox_def vx_def by (rule fl_pos(1)[OF assms(1)])
  have fly: "fl y = (if oy then PInf else Fin vy)"
    unfolding oy_def vy_def by (rule fl_pos(1)[OF y])
  have ee: "fexp x \<le> fexp y"
    using ilog2_mono[OF assms] by (simp add: fexp_def)
  have both: "(ox \<longrightarrow> oy) \<and> (\<not> oy \<longrightarrow> vx \<le> vy)"
  proof (cases "fexp x = fexp y")
    case True
    have "x / 2 powi (fexp y - 52) \<le> y / 2 powi (fexp y - 52)"
      using assms(2) by (simp add: divide_right_mono)
    then have m: "fman x \<le> fman y" unfolding fman_def True by (rule rhe_mono)
    then have "(of_int (fman x) :: rat) \<le> of_int (fman y)" by simp
    then have "vx \<le> vy" unfolding vx_def vy_def True by (simp add: mult_right_mono)
    moreover have "ox \<longrightarrow> oy" using m by (auto simp add: ox_def oy_def True)
    ultimately show ?thesis by simp
  next
    case False
    with ee have lt: "fexp x + 1 \<le> fexp y" by simp
    then have "- 1022 < fexp y" "fexp y = ilog2 y" by (simp_all add: fexp_def)
    then have my: "4503599627370496 \<le> fman y" using fl_pos(4)[OF y] by simp
    have "vx \<le> 9007199254740992 * 2 powi (fexp x - 52)"
      unfolding vx_def using fl_pos(3)[OF assms(1)] by (simp add: mult_right_mono)
    also have "\<dots> = 2 powi (fexp x + 1)"
      using powi2_split[of 53 "fexp x - 52"] by (simp add: add.commute)
    also have "\<dots> \<le> 2 powi (fexp y)"
      using lt by (intro power_int_increasing) simp_all
    also have "\<dots> = 4503599627370496 * 2 powi (fexp y - 52)"
      using powi2_split[of 52 "fexp y - 52"] by simp
    also have "\<dots> \<le> vy"
      unfolding vy_def using my by (simp add: mult_right_mono)
    finally have "vx \<le> vy" .
    moreover have "ox \<longrightarrow> oy" using lt by (auto simp add: ox_def oy_def)
    ultimately show ?thesis by simp
  qed
  show ?thesis using both by (cases ox; cases oy) (simp_all add: flx fly)
qed

lemma fl_nonneg:
  assumes "0 \<le> x"
  shows "js_le (Fin 0) (fl x)"
proof (cases "x = 0")
  case True
  then show ?thesis by (simp add: fl_def)
next
  case False
  with assms have x: "0 < x" by simp
  have "0 \<le> of_int (fman x) * (2::rat) powi (fexp x - 52)"
    using fl_pos(2)[OF x] by simp
  then show ?thesis by (simp add: fl_pos(1)[OF x])
qed

lemma fl_mono:
  assumes "0 \<le> x" "x \<le> y"
  shows "js_le (fl x) (fl y)"
proof (cases "x = 0")
  case True
  have "fl x = Fin 0" by (simp add: True fl_def)
  then show ?thesis using fl_nonneg[of y] assms by simp
next
  case False
  with assms show ?thesis by (intro fl_mono_pos) simp_all
qed

lemma ilog2_of_int:
  assumes "k \<noteq> 0"
  shows "0 \<le> ilog2 (of_int k)"
    and "\<bar>k\<bar> < 9007199254740992 \<Longrightarrow> ilog2 (of_int k) \<le> 52"
    and "9007199254740992 \<le> \<bar>k\<bar> \<Longrightarrow> 53 \<le> ilog2 (of_int k)"
proof -
  let ?x = "of_int k :: rat"
  have x0: "?x \<noteq> 0" using assms by simp
  have "1 \<le> \<bar>k\<bar>" using assms by simp
  then have "(of_int 1 :: rat) \<le> of_int \<bar>k\<bar>" by (simp only: of_int_le_iff)
  then have "(2::rat) powi 0 \<le> \<bar>?x\<bar>" by simp
  also have "\<dots> < 2 powi (ilog2 ?x + 1)" by (rule ilog2_bounds(2)[OF x0])
  finally have "0 < ilog2 ?x + 1" by (rule powi2_less_D)
  then show "0 \<le> ilog2 ?x" by simp
  {
    assume "\<bar>k\<bar> < 9007199254740992"
    then have "(of_int \<bar>k\<bar> :: rat) < of_int 9007199254740992" by (simp only: of_int_less_iff)
    then have "\<bar>?x\<bar> < 2 powi 53" by simp
    with ilog2_bounds(1)[OF x0] have "(2::rat) powi (ilog2 ?x) < 2 powi 53" by simp
    then have "ilog2 ?x < 53" by (rule powi2_less_D)
    then show "ilog2 ?x \<le> 52" by simp
  }
  {
    assume "9007199254740992 \<le> \<bar>k\<bar>"
    then have "(of_int 9007199254740992 :: rat) \<le> of_int \<bar>k\<bar>" by (simp only: of_int_le_iff)
    then have "(2::rat) powi 53 \<le> \<bar>?x\<bar>" by simp
    also have "\<dots> < 2 powi (ilog2 ?x + 1)" by (rule ilog2_bounds(2)[OF x0])
    finally have "53 < ilog2 ?x + 1" by (rule powi2_less_D)
    then show "53 \<le> ilog2 ?x" by simp
  }
qed

lemma fl_of_int_exact:
  assumes "\<bar>k\<bar> < 9007199254740992"
  shows "fl (of_int k) = Fin (of_int k)"
proof (cases "k = 0")
  case True
  then show ?thesis by (simp add: fl_def)
next
  case False
  let ?x = "of_int k :: rat"
  define e where "e = ilog2 ?x"
  have e: "0 \<le> e" "e \<le> 52" using ilog2_of_int[OF False] assms by (simp_all add: e_def)
  have q: "(2::rat) powi (e - 52) * of_int (2 ^ nat (52 - e)) = 1"
  proof -
    have "(2::rat) powi (e - 52) * 2 powi (52 - e) = 2 powi ((e - 52) + (52 - e))"
      by (rule powi2_split [symmetric])
    moreover have "(2::rat) powi (52 - e) = of_int (2 ^ nat (52 - e))"
      using e by (simp add: power_int_def)
    ultimately show ?thesis by simp
  qed
  have qpos: "(0::rat) < 2 powi (e - 52)" by simp
  have "?x / 2 powi (e - 52) = of_int (k * 2 ^ nat (52 - e))"
    using q qpos by (simp add: field_simps)
  then have n: "round_half_even (?x / 2 powi (e - 52)) = k * 2 ^ nat (52 - e)"
    by (simp only: rhe_of_int)
  have "of_int (k * 2 ^ nat (52 - e)) * (2::rat) powi (e - 52) = ?x"
    using q by (simp add: mult.assoc mult.commute)
  then show ?thesis
    using False e unfolding fl_def Let_def e_def[symmetric]
    by (simp add: n max_def)
qed

lemma fl_of_int_integer:
  assumes "fl (of_int k) = Fin y"
  shows "of_int \<lfloor>y\<rfloor> = y"
proof (cases "\<bar>k\<bar> < 9007199254740992")
  case True
  then show ?thesis using assms fl_of_int_exact[of k] by auto
next
  case False
  then have k: "k \<noteq> 0" "9007199254740992 \<le> \<bar>k\<bar>" by auto
  let ?x = "of_int k :: rat"
  define e where "e = ilog2 ?x"
  have e: "53 \<le> e" using ilog2_of_int(3)[OF k] by (simp add: e_def)
  have q: "(2::rat) powi (e - 52) = of_int (2 ^ nat (e - 52))"
    using e by (simp add: power_int_def)
  define n where "n = round_half_even (?x / 2 powi (e - 52))"
  have "fl ?x = Fin (of_int n * 2 powi (e - 52)) \<or> fl ?x = PInf \<or> fl ?x = NInf"
    using k e unfolding fl_def Let_def e_def[symmetric] n_def
    by (simp add: max_def)
  with assms have "y = of_int n * 2 powi (e - 52)" by auto
  then have "y = of_int (n * 2 ^ nat (e - 52))" by (simp add: q)
  then show ?thesis by (simp only: floor_of_int)
qed

lemma draw_le:
  assumes "is_draw r"
  shows "r \<le> 1 - 1 / 2 ^ 53"
proof (cases "r = 0")
  case True
  then show ?thesis by simp
next
  case False
  with assms have r: "0 < r" "r < 1" "fl r = Fin r" by (simp_all add: is_draw_def is_double_def)
  have "(2::rat) powi (ilog2 r) \<le> r" using ilog2_bounds(1)[of r] r by simp
  also have "r < 2 powi 0" using r by simp
  finally have "ilog2 r < 0" by (rule powi2_less_D)
  then have e: "fexp r \<le> - 1" by (simp add: fexp_def)
  show ?thesis
  proof (cases "fexp r = - 1")
    case True
    have "r = of_int (fman r) * 2 powi (fexp r - 52)"
      using fl_pos(1)[OF r(1)] r(3) by (simp split: if_splits)
    then have eq: "r = of_int (fman r) / 9007199254740992" by (simp add: True)
    have "(of_int (fman r) :: rat) / 9007199254740992 < 1" using r(2) by (subst (asm) eq)
    then have "(of_int (fman r) :: rat) < of_int 9007199254740992" by simp
    then have "fman r < 9007199254740992" by (simp only: of_int_less_iff)
    then have "fman r + 1 \<le> 9007199254740992" by (simp only: add1_zle_eq)
    then have "(of_int (fman r + 1) :: rat) \<le> of_int 9007199254740992" by (simp only: of_int_le_iff)
    then have "(of_int (fman r) :: rat) + 1 \<le> 9007199254740992" by simp
    then have "(of_int (fman r) :: rat) / 9007199254740992 + 1 / 9007199254740992 \<le> 1"
      by (simp add: add_divide_distrib [symmetric])
    then have h: "(of_int (fman r) :: rat) / 9007199254740992 \<le> 1 - 1 / 9007199254740992"
      by (simp only: le_diff_eq)
    have "r \<le> 1 - 1 / 9007199254740992" by (subst eq) (rule h)
    then show ?thesis by simp
  next
    case False
    with e have e2: "fexp r + 1 \<le> - 1" by simp
    have "r < 2 powi (ilog2 r + 1)" using ilog2_bounds(2)[of r] r by simp
    also have "\<dots> \<le> 2 powi (fexp r + 1)" by (intro power_int_increasing) (simp_all add: fexp_def)
    also have "\<dots> \<le> 2 powi (- 1)" using e2 by (intro power_int_increasing) simp_all
    finally show ?thesis by simp
  qed
qed

lemma fl_top_draw: "fl ((1 - 1 / 2 ^ 53) * 25) = Fin (25 - 1 / 2 ^ 48)"
  by code_simp

lemma random_bonus_range:
  assumes "is_draw r"
  shows "\<exists>k. random_bonus r = Fin (of_int k) \<and> 5 \<le> k \<and> k \<le> 29"
proof -
  have r: "0 \<le> r" using assms by (simp add: is_draw_def)
  have le: "r * 25 \<le> (1 - 1 / 2 ^ 53) * 25" using draw_le[OF assms] by simp
  have "js_le (fl (r * 25)) (fl ((1 - 1 / 2 ^ 53) * 25))"
    using r le by (intro fl_mono) simp_all
  then have up: "js_le (fl (r * 25)) (Fin (25 - 1 / 2 ^ 48))" by (simp only: fl_top_draw)
  have lo: "js_le (Fin 0) (fl (r * 25))" using r by (intro fl_nonneg) simp
  obtain v where v: "fl (r * 25) = Fin v" "0 \<le> v" "v \<le> 25 - 1 / 2 ^ 48"
    using up lo by (cases "fl (r * 25)") simp_all
  define f where "f = \<lfloor>v\<rfloor>"
  have f0: "0 \<le> f" using v(2) by (simp add: f_def)
  have "v < 25" using v(3) by simp
  then have "f < 25" unfolding f_def by (simp add: floor_less_iff)
  then have f1: "f \<le> 24" by simp
  have "random_bonus r = fl (of_int (f + 5))"
    by (simp add: random_bonus_def v(1) f_def)
  also have "\<dots> = Fin (of_int (f + 5))" using f0 f1 by (intro fl_of_int_exact) simp
  finally show ?thesis using f0 f1 by (intro exI[of _ "f + 5"]) simp
qed

section \<open>Properties of the extractors and of the offer\<close>

lemma getCeXPrice_not_NaN: "fst (getCeXPrice net model storage grade) \<noteq> NaN"
  by (simp add: getCeXPrice_def getCeXPrice_try_def Let_def isNaN_def
      split: fetch_result.splits option.splits)

lemma getMusicMagpiePrice_not_NaN: "fst (getMusicMagpiePrice net brand model storage) \<noteq> NaN"
  by (simp add: getMusicMagpiePrice_def getMusicMagpiePrice_try_def Let_def isNaN_def
      split: fetch_result.splits option.splits)

lemma getCeXPrice_v1_not_NaN: "fst (getCeXPrice_v1 net model storage) \<noteq> NaN"
  by (simp add: getCeXPrice_v1_def getCeXPrice_v1_try_def Let_def isNaN_def
      split: fetch_result.splits option.splits)

lemma getMusicMagpiePrice_v1_not_NaN: "fst (getMusicMagpiePrice_v1 net brand model storage) \<noteq> NaN"
  by (simp add: getMusicMagpiePrice_v1_def getMusicMagpiePrice_v1_try_def Let_def isNaN_def
      split: fetch_result.splits option.splits)

lemma price_not_NaN:
  "cex_price net body \<noteq> NaN" "magpie_price net body \<noteq> NaN"
  "cex_price_v1 net body \<noteq> NaN" "magpie_price_v1 net body \<noteq> NaN"
  by (simp_all add: cex_price_def magpie_price_def cex_price_v1_def magpie_price_v1_def
      getCeXPrice_not_NaN getMusicMagpiePrice_not_NaN getCeXPrice_v1_not_NaN
      getMusicMagpiePrice_v1_not_NaN)


lemma larger_price_Math_max: "larger_price p q b \<Longrightarrow> Math_max p q = Fin b"
  by (cases p; cases q) (auto simp add: larger_price_def at_most_def Math_max_def isNaN_def)

lemma no_positive_price_iff:
  "p \<noteq> NaN \<Longrightarrow> q \<noteq> NaN \<Longrightarrow>
     js_le (Math_max p q) (Fin 0) \<longleftrightarrow> at_most p 0 \<and> at_most q 0"
  by (cases p; cases q) (auto simp add: at_most_def Math_max_def isNaN_def)

lemma Math_max_PInf:
  "p \<noteq> NaN \<Longrightarrow> q \<noteq> NaN \<Longrightarrow> p = PInf \<or> q = PInf \<Longrightarrow> Math_max p q = PInf"
  by (cases p; cases q) (auto simp add: Math_max_def isNaN_def)

lemma js_eq_iff: "js a = js b \<longleftrightarrow> a = b"
  by (simp add: js_def inj_map_eq_map [OF inj_of_char])

lemma fl_not_NaN: "fl x \<noteq> NaN"
  by (simp add: fl_def Let_def)

lemma fl_int_cases:
  "fl (of_int k) = PInf \<or> fl (of_int k) = NInf \<or> (\<exists>j. fl (of_int k) = Fin (of_int j))"
proof (cases "fl (of_int k)")
  case (Fin y)
  have "y = of_int \<lfloor>y\<rfloor>" by (rule fl_of_int_integer[OF Fin, symmetric])
  with Fin show ?thesis by metis
qed (simp_all add: fl_not_NaN)

lemma random_bonus_cases:
  "random_bonus r = PInf \<or> random_bonus r = NInf \<or> (\<exists>k. random_bonus r = Fin (of_int k))"
proof (cases "fl (r * 25)")
  case (Fin v)
  have "random_bonus r = fl (of_int (\<lfloor>v\<rfloor> + 5))" by (simp add: random_bonus_def Fin)
  then show ?thesis using fl_int_cases[of "\<lfloor>v\<rfloor> + 5"] by simp
qed (simp_all add: random_bonus_def fl_not_NaN)

lemma is_integer_of_int: "is_integer (Fin (of_int k))"
  by (simp add: is_integer_def)

lemma final_offer_integer:
  assumes "is_finite (js_add (Math_round b) (random_bonus r))"
  shows "is_integer (js_add (Math_round b) (random_bonus r))"
proof (cases b)
  case (Fin x)
  from random_bonus_cases[of r] show ?thesis
  proof (elim disjE exE)
    fix k assume k: "random_bonus r = Fin (of_int k)"
    have "js_add (Math_round b) (random_bonus r) = fl (of_int (\<lfloor>x + 1 / 2\<rfloor> + k))"
      by (simp add: Fin k)
    then show ?thesis using fl_int_cases[of "\<lfloor>x + 1 / 2\<rfloor> + k"] assms
      by (auto simp add: is_integer_of_int is_finite_def)
  qed (use assms Fin in \<open>simp_all add: is_finite_def\<close>)
next
  case NaN
  with assms show ?thesis by (simp add: is_finite_def)
next
  case PInf
  with assms random_bonus_cases[of r] show ?thesis by (auto simp add: is_finite_def)
next
  case NInf
  with assms random_bonus_cases[of r] show ?thesis by (auto simp add: is_finite_def)
qed

text \<open>The product of a draw and 25, and the bonus it gives.\<close>

lemma draw_product:
  assumes "is_draw r"
  shows "\<exists>v. fl (r * 25) = Fin v \<and> 0 \<le> v \<and> v < 25
             \<and> random_bonus r = Fin (of_int (\<lfloor>v\<rfloor> + 5))"
proof -
  have r: "0 \<le> r" using assms by (simp add: is_draw_def)
  have le: "r * 25 \<le> (1 - 1 / 2 ^ 53) * 25" using draw_le[OF assms] by simp
  have "js_le (fl (r * 25)) (fl ((1 - 1 / 2 ^ 53) * 25))"
    using r le by (intro fl_mono) simp_all
  then have up: "js_le (fl (r * 25)) (Fin (25 - 1 / 2 ^ 48))" by (simp only: fl_top_draw)
  have lo: "js_le (Fin 0) (fl (r * 25))" using r by (intro fl_nonneg) simp
  obtain v where v: "fl (r * 25) = Fin v" "0 \<le> v" "v \<le> 25 - 1 / 2 ^ 48"
    using up lo by (cases "fl (r * 25)") simp_all
  have v25: "v < 25" using v(3) by simp
  have f0: "0 \<le> \<lfloor>v\<rfloor>" using v(2) by simp
  have "\<lfloor>v\<rfloor> < 25" using v25 by (simp add: floor_less_iff)
  then have f1: "\<lfloor>v\<rfloor> \<le> 24" by simp
  have "random_bonus r = fl (of_int (\<lfloor>v\<rfloor> + 5))"
    by (simp add: random_bonus_def v(1))
  also have "\<dots> = Fin (of_int (\<lfloor>v\<rfloor> + 5))" using f0 f1 by (intro fl_of_int_exact) simp
  finally show ?thesis using v(1,2) v25 by blast
qed

lemma rounded_plus_bonus:
  "js_add (Math_round (Fin b)) (Fin (of_int k)) = fl (of_int (\<lfloor>b + 1 / 2\<rfloor> + k))"
  by simp

lemma small_offer_exact:
  assumes "0 < b" "b < 4503599627370496" "0 \<le> v" "v < 25"
  shows "fl (of_int (\<lfloor>b + 1 / 2\<rfloor> + \<lfloor>v\<rfloor> + 5)) = Fin (of_int (\<lfloor>b + 1 / 2\<rfloor> + \<lfloor>v\<rfloor> + 5))"
proof (rule fl_of_int_exact)
  have "b + 1 / 2 < of_int (4503599627370496 + 1)" using assms(2) by simp
  then have "\<lfloor>b + 1 / 2\<rfloor> < 4503599627370496 + 1" by (simp only: floor_less_iff)
  then have up: "\<lfloor>b + 1 / 2\<rfloor> \<le> 4503599627370496" by (simp only: zle_add1_eq_le [symmetric])
  have lo: "0 \<le> \<lfloor>b + 1 / 2\<rfloor>" using assms(1) by simp
  have v0: "0 \<le> \<lfloor>v\<rfloor>" using assms(3) by simp
  have "\<lfloor>v\<rfloor> < 25" using assms(4) by (simp add: floor_less_iff)
  then have v1: "\<lfloor>v\<rfloor> + 5 \<le> 29" by simp
  have "\<lfloor>b + 1 / 2\<rfloor> + (\<lfloor>v\<rfloor> + 5) \<le> 4503599627370496 + 29" using up v1 by (rule add_mono)
  also have "(4503599627370496 + 29 :: int) < 9007199254740992" by simp
  finally have "\<lfloor>b + 1 / 2\<rfloor> + \<lfloor>v\<rfloor> + 5 < 9007199254740992" by (simp only: add.assoc)
  moreover have "0 \<le> \<lfloor>b + 1 / 2\<rfloor> + \<lfloor>v\<rfloor> + 5" using lo v0 by simp
  ultimately show "\<bar>\<lfloor>b + 1 / 2\<rfloor> + \<lfloor>v\<rfloor> + 5\<bar> < 9007199254740992" by (simp only: abs_of_nonneg)
qed



text \<open>The handlers on a request that passes validation and whose log line is written.\<close>

lemma get_quote_called:
  assumes "valid_request body" "printable_request body"
  shows "fst (get_quote net random body) =
     Inr (if js_le (Math_max (cex_price net body) (magpie_price net body)) (Fin 0)
          then Response 200
                 (JObj [(js ''ourPrice'', JNum (Fin 0)),
                        (js ''cexPrice'', JNum (cex_price net body)),
                        (js ''musicMagpiePrice'', JNum (magpie_price net body)),
                        (js ''message'', JStr no_offer_message)])
          else Response 200
                 (JObj [(js ''ourPrice'',
                         JNum (js_add (Math_round (Math_max (cex_price net body) (magpie_price net body)))
                                      (random_bonus random))),
                        (js ''cexPrice'', JNum (cex_price net body)),
                        (js ''musicMagpiePrice'', JNum (magpie_price net body))]))"
  using assms
  by (auto simp add: get_quote_def valid_request_def printable_request_def cex_price_def
      magpie_price_def Let_def case_prod_beta)

lemma get_quote_v1_called:
  assumes "valid_request_v1 body" "printable_request_v1 body"
  shows "fst (get_quote_v1 net random body) =
     Inr (case quote_v1_try random (field body ''condition'')
                 (cex_price_v1 net body) (magpie_price_v1 net body) of
            Some response \<Rightarrow> response
          | None \<Rightarrow> Response 500 (JObj [(js ''error'', JStr (js ''An internal server error occurred.''))]))"
  using assms
  by (auto simp add: get_quote_v1_def valid_request_v1_def printable_request_v1_def cex_price_v1_def
      magpie_price_v1_def Let_def case_prod_beta split: option.splits)

section \<open>Properties of the parsers and of the condition logic\<close>

lemma digits_value_nonneg:
  "0 \<le> acc \<Longrightarrow> 0 \<le> radix \<Longrightarrow> \<forall>c\<in>set s. is_digit c \<Longrightarrow> 0 \<le> digits_value radix acc s"
proof (induction s arbitrary: acc)
  case Nil
  then show ?case by simp
next
  case (Cons c s)
  from Cons.prems have c: "48 \<le> c" "c \<le> 57" by (simp_all add: is_digit_def)
  have "0 \<le> acc * radix + (c - 48)" using Cons.prems(1,2) c by simp
  then have "0 \<le> digits_value radix (acc * radix + (c - 48)) s"
    using Cons.prems by (intro Cons.IH) simp_all
  then show ?case using c by simp
qed

lemma digits_value_takeWhile_nonneg: "0 \<le> digits_value 10 0 (takeWhile is_digit s)"
  by (rule digits_value_nonneg) (auto dest: set_takeWhileD)

lemma take_sign_plus: "\<not> leading_minus s \<Longrightarrow> fst (take_sign (trimStart s)) = 1"
  by (cases "trimStart s") (auto simp add: take_sign_def leading_minus_def)

lemma parseFloat_nonneg:
  assumes "\<not> leading_minus s" "parseFloat s \<noteq> NaN"
  shows "js_le (Fin 0) (parseFloat s)"
proof -
  have sg: "fst (take_sign (trimStart s)) = 1" using assms(1) by (rule take_sign_plus)
  obtain u where u: "take_sign (trimStart s) = (1, u)"
    using sg by (cases "take_sign (trimStart s)") simp
  define ip where "ip = takeWhile is_digit u"
  define r1 where "r1 = dropWhile is_digit u"
  define fp where "fp = (if r1 \<noteq> [] \<and> hd r1 = 46 then takeWhile is_digit (tl r1) else [])"
  define r2 where "r2 = (if r1 \<noteq> [] \<and> hd r1 = 46 then dropWhile is_digit (tl r1) else r1)"
  define mv :: rat where
    "mv = (of_int (digits_value 10 0 ip) + of_int (digits_value 10 0 fp) / 10 ^ length fp)
          * 10 powi exponent_part r2"
  have pf: "parseFloat s =
      (if starts_with (js ''Infinity'') u then PInf
       else if ip = [] \<and> fp = [] then NaN else fl mv)"
    by (auto simp add: parseFloat_def u Let_def ip_def r1_def fp_def r2_def mv_def)
  have "0 \<le> digits_value 10 0 ip" unfolding ip_def by (rule digits_value_takeWhile_nonneg)
  moreover have "0 \<le> digits_value 10 0 fp"
    unfolding fp_def by (simp add: digits_value_takeWhile_nonneg)
  ultimately have "0 \<le> mv" unfolding mv_def by simp
  then have "js_le (Fin 0) (fl mv)" by (rule fl_nonneg)
  then show ?thesis using assms(2) by (simp add: pf split: if_splits)
qed

lemma negative_not_nonneg: "negative p \<Longrightarrow> \<not> js_le (Fin 0) p"
  by (cases p) (simp_all add: negative_def)

lemma negative_parseFloat:
  assumes "negative (parseFloat s)"
  shows "leading_minus s"
proof (rule ccontr)
  assume n: "\<not> leading_minus s"
  have "parseFloat s \<noteq> NaN" using assms by (auto simp add: negative_def)
  then have "js_le (Fin 0) (parseFloat s)" using n by (intro parseFloat_nonneg)
  then show False using assms negative_not_nonneg by blast
qed

lemma not_negative_zero: "\<not> negative (Fin 0)"
  by (simp add: negative_def)

lemma getCeXPrice_negative:
  assumes "negative (fst (getCeXPrice net model storage grade))"
  shows "\<exists>url st html. cex_search_url model storage grade = Some url
           \<and> net url = Resolved st (Some html)
           \<and> leading_minus (strip_non_numeric (box_sell_price html))"
  using assms
  by (auto simp add: getCeXPrice_def getCeXPrice_try_def Let_def not_negative_zero
      split: option.splits fetch_result.splits if_splits intro: negative_parseFloat)

lemma getMusicMagpiePrice_negative:
  assumes "negative (fst (getMusicMagpiePrice net brand model storage))"
  shows "\<exists>url st html. magpie_search_url brand model storage = Some url
           \<and> net url = Resolved st (Some html)
           \<and> leading_minus (strip_non_numeric (trim (product_price_now html)))"
  using assms
  by (auto simp add: getMusicMagpiePrice_def getMusicMagpiePrice_try_def Let_def not_negative_zero
      split: option.splits fetch_result.splits if_splits intro: negative_parseFloat)

lemma getCeXPrice_v1_negative:
  assumes "negative (fst (getCeXPrice_v1 net model storage))"
  shows "\<exists>url st html. cex_search_url_v1 model storage = Some url
           \<and> net url = Resolved st (Some html)
           \<and> leading_minus (remove_first pound (sell_price_info html))"
  using assms
  by (auto simp add: getCeXPrice_v1_def getCeXPrice_v1_try_def Let_def not_negative_zero
      split: option.splits fetch_result.splits if_splits intro: negative_parseFloat)

lemma getMusicMagpiePrice_v1_negative:
  assumes "negative (fst (getMusicMagpiePrice_v1 net brand model storage))"
  shows "\<exists>url st html. magpie_search_url brand model storage = Some url
           \<and> net url = Resolved st (Some html)
           \<and> leading_minus (remove_first pound (trim (product_price_now html)))"
  using assms
  by (auto simp add: getMusicMagpiePrice_v1_def getMusicMagpiePrice_v1_try_def Let_def
      not_negative_zero
      split: option.splits fetch_result.splits if_splits intro: negative_parseFloat)

text \<open>The condition logic of the handler against the steps in arithmetic.\<close>

lemma rd_Some: "rd x = Some y \<longleftrightarrow> fl x = Fin y"
  by (simp add: rd_def split: jsnum.splits)

lemma deduct_rate_first_js:
  assumes "deduct_rate_first rate g b = Some b'"
  shows "js_sub (Fin b) (js_mul (Fin (of_int (4 - g))) (js_mul (Fin b) (lit rate))) = Fin b'"
  using assms
  by (auto simp add: deduct_rate_first_def rd_Some lit_def js_sub_def bind_eq_Some_conv)

lemma scale_if_js:
  assumes "scale_if applies rate b = Some b'"
  shows "(if applies then js_mul (Fin b) (lit rate) else Fin b) = Fin b'"
  using assms
  by (auto simp add: scale_if_def rd_Some lit_def bind_eq_Some_conv split: if_splits)

lemma add_if_js:
  assumes "add_if applies amount b = Some b'"
  shows "(if applies then js_add (Fin b) (Fin amount) else Fin b) = Fin b'"
  using assms by (auto simp add: add_if_def rd_Some split: if_splits)

lemma grade_1: "parseInt (Number_toString (Fin 1)) = Fin 1" by code_simp
lemma grade_2: "parseInt (Number_toString (Fin 2)) = Fin 2" by code_simp
lemma grade_3: "parseInt (Number_toString (Fin 3)) = Fin 3" by code_simp
lemma grade_4: "parseInt (Number_toString (Fin 4)) = Fin 4" by code_simp

lemma parse_grade:
  assumes "1 \<le> n" "n \<le> 4"
  shows "parseInt (Number_toString (Fin (of_int n))) = Fin (of_int n)"
proof -
  have "n = 1 \<or> n = 2 \<or> n = 3 \<or> n = 4" using assms by arith
  then show ?thesis using grade_1 grade_2 grade_3 grade_4 by auto
qed

lemma four_minus_grade:
  assumes "1 \<le> n" "n \<le> 4"
  shows "js_sub (Fin 4) (Fin (of_int n)) = Fin (of_int (4 - n))"
proof -
  have "js_sub (Fin 4) (Fin (of_int n)) = fl (of_int (4 - n))" by (simp add: js_sub_def)
  also have "\<dots> = Fin (of_int (4 - n))" using assms by (intro fl_of_int_exact) simp
  finally show ?thesis .
qed

lemma apply_condition_json:
  assumes g: "1 \<le> screen_condition c" "screen_condition c \<le> 4"
      "1 \<le> body_condition c" "body_condition c \<le> 4"
    and s5: "steps_1_to_5 deduct_rate_first c b = Some b5"
    and s7: "steps_6_to_7 c b5 = Some b7"
  shows "apply_condition (condition_json c) (Fin b) = Some (Fin b7)"
proof -
  obtain b1 b2 b3 b4 where
    d1: "deduct_rate_first (15 / 100) (screen_condition c) b = Some b1" and
    d2: "deduct_rate_first (10 / 100) (body_condition c) b1 = Some b2" and
    d3: "scale_if (\<not> fully_functional c) (4 / 10) b2 = Some b3" and
    d4: "scale_if (\<not> camera_works c) (8 / 10) b3 = Some b4" and
    d5: "scale_if (\<not> battery_health c) (9 / 10) b4 = Some b5"
    using s5 by (auto simp add: steps_1_to_5_def bind_eq_Some_conv)
  obtain b6 where
    d6: "add_if (original_box c) 10 b5 = Some b6" and
    d7: "add_if (charger_included c) 5 b6 = Some b7"
    using s7 by (auto simp add: steps_6_to_7_def bind_eq_Some_conv)
  define t1 where "t1 = Number_toString (Fin (of_int (screen_condition c)))"
  define t2 where "t2 = Number_toString (Fin (of_int (body_condition c)))"
  define p1 where
    "p1 = js_sub (Fin b) (js_mul (js_sub (Fin 4) (parseInt t1)) (js_mul (Fin b) (lit (15 / 100))))"
  define p2 where
    "p2 = js_sub p1 (js_mul (js_sub (Fin 4) (parseInt t2)) (js_mul p1 (lit (1 / 10))))"
  define p3 where "p3 = (if \<not> fully_functional c then js_mul p2 (lit (4 / 10)) else p2)"
  define p4 where "p4 = (if \<not> camera_works c then js_mul p3 (lit (8 / 10)) else p3)"
  define p5 where "p5 = (if \<not> battery_health c then js_mul p4 (lit (9 / 10)) else p4)"
  define p6 where "p6 = (if original_box c then js_add p5 (Fin 10) else p5)"
  define p7 where "p7 = (if charger_included c then js_add p6 (Fin 5) else p6)"
  have run: "apply_condition (condition_json c) (Fin b) = Some p7"
    by (simp add: apply_condition_def condition_json_def field_def js_eq_iff Let_def
        p1_def p2_def p3_def p4_def p5_def p6_def p7_def t1_def t2_def
        del: Number_toString.simps)
  have "p1 = Fin b1"
    unfolding p1_def t1_def parse_grade[OF g(1,2)] four_minus_grade[OF g(1,2)]
    by (rule deduct_rate_first_js[OF d1])
  moreover have "js_sub (Fin b1) (js_mul (Fin (of_int (4 - body_condition c)))
                   (js_mul (Fin b1) (lit (1 / 10)))) = Fin b2"
    using deduct_rate_first_js[OF d2] by simp
  ultimately have "p2 = Fin b2"
    unfolding p2_def t2_def parse_grade[OF g(3,4)] four_minus_grade[OF g(3,4)] by simp
  then have "p3 = Fin b3" unfolding p3_def by (simp only: scale_if_js[OF d3])
  then have "p4 = Fin b4" unfolding p4_def by (simp only: scale_if_js[OF d4])
  then have "p5 = Fin b5" unfolding p5_def by (simp only: scale_if_js[OF d5])
  then have "p6 = Fin b6" unfolding p6_def by (simp only: add_if_js[OF d6])
  then have "p7 = Fin b7" unfolding p7_def by (simp only: add_if_js[OF d7])
  with run show ?thesis by simp
qed

section \<open>The condition adjustment does not overflow\<close>

text \<open>Rounding a number of moderate size does not overflow, and at most doubles it.\<close>

lemma rhe_near: "\<bar>of_int (round_half_even t) - t\<bar> \<le> 1"
proof -
  have "of_int \<lfloor>t\<rfloor> \<le> t" "t < of_int \<lfloor>t\<rfloor> + 1" by linarith+
  then show ?thesis using rhe_cases[of t] by auto
qed

lemma fl_total:
  assumes "\<bar>x\<bar> < 2 powi 1023"
  shows "\<exists>y. fl x = Fin y \<and> \<bar>y\<bar> \<le> 2 * \<bar>x\<bar> + 1"
proof (cases "x = 0")
  case True
  then show ?thesis by (simp add: fl_def)
next
  case False
  define e where "e = fexp x"
  define q :: rat where "q = 2 powi (e - 52)"
  define n where "n = fman x"
  have q0: "0 < q" by (simp add: q_def)
  have "(2::rat) powi (ilog2 x) < 2 powi 1023"
    using ilog2_bounds(1)[OF False] assms by simp
  then have il: "ilog2 x < 1023" by (rule powi2_less_D)
  then have e1: "e \<le> 1022" by (simp add: e_def fexp_def)
  have c: "\<not> (1024 \<le> e \<or> e = 1023 \<and> P)" for P using e1 by simp
  have "fl x = (if 1024 \<le> e \<or> e = 1023 \<and> 9007199254740992 \<le> \<bar>n\<bar>
                then (if 0 < x then PInf else NInf)
                else Fin (of_int n * q))"
    unfolding fl_def Let_def e_def n_def q_def fexp_def fman_def using False by (simp only: if_False)
  then have f: "fl x = Fin (of_int n * q)" by (rule trans) (rule if_not_P[OF c])
  have "\<bar>of_int n - x / q\<bar> \<le> 1" unfolding n_def fman_def q_def e_def by (rule rhe_near)
  then have "\<bar>of_int n - x / q\<bar> * q \<le> 1 * q" using q0 by (intro mult_right_mono) simp_all
  moreover have "(of_int n - x / q) * q = of_int n * q - x"
    using q0 by (simp add: left_diff_distrib)
  then have "\<bar>of_int n - x / q\<bar> * q = \<bar>of_int n * q - x\<bar>"
    using q0 abs_mult[of "of_int n - x / q" q] by simp
  ultimately have d: "\<bar>of_int n * q - x\<bar> \<le> q" by simp
  have qb: "q \<le> \<bar>x\<bar> + 1"
  proof (cases "- 1022 \<le> ilog2 x")
    case True
    then have "e = ilog2 x" by (simp add: e_def fexp_def)
    then have "q = 2 powi (ilog2 x) * 2 powi (- 52)"
      unfolding q_def using powi2_split[of "ilog2 x" "- 52"] by simp
    also have "\<dots> \<le> 2 powi (ilog2 x) * 2 powi 0"
      by (intro mult_left_mono power_int_increasing) simp_all
    also have "\<dots> \<le> \<bar>x\<bar>" using ilog2_bounds(1)[OF False] by simp
    finally show ?thesis by simp
  next
    case False
    then have "e = - 1022" by (simp add: e_def fexp_def)
    then have "q = 2 powi (- 1074)" by (simp add: q_def)
    also have "\<dots> \<le> 2 powi 0" by (intro power_int_increasing) simp_all
    finally show ?thesis by simp
  qed
  have "\<bar>of_int n * q\<bar> \<le> \<bar>x\<bar> + q" using d by linarith
  then have "\<bar>of_int n * q\<bar> \<le> 2 * \<bar>x\<bar> + 1" using qb by linarith
  then show ?thesis using f by blast
qed

lemma powi_1023_large: "(1267650600228229401496703205376 :: rat) < 2 powi 1023"
proof -
  have "(2::rat) powi 100 < 2 powi 1023" by (intro power_int_strict_increasing) simp_all
  then show ?thesis by (simp add: power_int_def)
qed

lemma rd_total:
  assumes "\<bar>x\<bar> \<le> B" "B \<le> L" "L < 2 powi 1023"
  shows "\<exists>y. rd x = Some y \<and> \<bar>y\<bar> \<le> 2 * B + 1"
proof -
  have "\<bar>x\<bar> < 2 powi 1023" using assms by linarith
  then obtain y where y: "fl x = Fin y" "\<bar>y\<bar> \<le> 2 * \<bar>x\<bar> + 1" using fl_total by blast
  then have "\<bar>y\<bar> \<le> 2 * B + 1" using assms(1) by linarith
  then show ?thesis using y(1) by (simp add: rd_def)
qed

lemma abs_mult_le:
  fixes x y :: rat
  assumes "\<bar>x\<bar> \<le> X" "\<bar>y\<bar> \<le> Y"
  shows "\<bar>x * y\<bar> \<le> X * Y"
proof -
  have "0 \<le> X" using assms(1) by linarith
  then have "\<bar>x\<bar> * \<bar>y\<bar> \<le> X * Y" using assms by (intro mult_mono) simp_all
  then show ?thesis by (simp add: abs_mult)
qed

lemma deduct_total:
  assumes g: "1 \<le> g" "g \<le> 4" and b: "\<bar>b\<bar> \<le> B" "1 \<le> B"
    and L: "44 * B \<le> L" "L < 2 powi 1023" and rate: "0 \<le> rate" "rate \<le> 1"
  shows "\<exists>b'. deduct_rate_first rate g b = Some b' \<and> \<bar>b'\<bar> \<le> 128 * B"
proof -
  have "\<bar>rate\<bar> \<le> 1" using rate by simp
  moreover have "1 \<le> L" using b(2) L(1) by linarith
  ultimately obtain r where r: "rd rate = Some r" "\<bar>r\<bar> \<le> 2 * 1 + 1"
    using rd_total[of rate 1 L] L(2) by blast
  have "\<bar>b * r\<bar> \<le> B * 3" using b(1) r(2) by (intro abs_mult_le) simp_all
  moreover have "B * 3 \<le> L" using L(1) b(2) by linarith
  ultimately obtain a where a: "rd (b * r) = Some a" "\<bar>a\<bar> \<le> 2 * (B * 3) + 1"
    using rd_total[of "b * r" "B * 3" L] L(2) by blast
  have a7: "\<bar>a\<bar> \<le> 7 * B" using a(2) b(2) by linarith
  have "\<bar>(of_int (4 - g) :: rat)\<bar> \<le> 3" using g by simp
  then have "\<bar>of_int (4 - g) * a\<bar> \<le> 3 * (7 * B)" using a7 by (rule abs_mult_le)
  moreover have "3 * (7 * B) \<le> L" using L(1) b(2) by linarith
  ultimately obtain d where d: "rd (of_int (4 - g) * a) = Some d" "\<bar>d\<bar> \<le> 2 * (3 * (7 * B)) + 1"
    using rd_total[of "of_int (4 - g) * a" "3 * (7 * B)" L] L(2) by blast
  have "\<bar>b - d\<bar> \<le> 44 * B" using d(2) b by linarith
  then obtain b' where b': "rd (b - d) = Some b'" "\<bar>b'\<bar> \<le> 2 * (44 * B) + 1"
    using rd_total[of "b - d" "44 * B" L] L by blast
  have "\<bar>b'\<bar> \<le> 128 * B" using b'(2) b(2) by linarith
  moreover have "deduct_rate_first rate g b = Some b'"
    by (simp only: deduct_rate_first_def r(1) a(1) d(1) b'(1) Option.bind.simps)
  ultimately show ?thesis by blast
qed

lemma scale_total:
  assumes b: "\<bar>b\<bar> \<le> B" "1 \<le> B"
    and L: "3 * B \<le> L" "L < 2 powi 1023" and rate: "0 \<le> rate" "rate \<le> 1"
  shows "\<exists>b'. scale_if applies rate b = Some b' \<and> \<bar>b'\<bar> \<le> 8 * B"
proof (cases applies)
  case False
  then show ?thesis using b by (simp add: scale_if_def)
next
  case True
  have "\<bar>rate\<bar> \<le> 1" using rate by simp
  moreover have "1 \<le> L" using b(2) L(1) by linarith
  ultimately obtain r where r: "rd rate = Some r" "\<bar>r\<bar> \<le> 2 * 1 + 1"
    using rd_total[of rate 1 L] L(2) by blast
  have "\<bar>b * r\<bar> \<le> B * 3" using b(1) r(2) by (intro abs_mult_le) simp_all
  moreover have "B * 3 \<le> L" using L(1) by linarith
  ultimately obtain a where a: "rd (b * r) = Some a" "\<bar>a\<bar> \<le> 2 * (B * 3) + 1"
    using rd_total[of "b * r" "B * 3" L] L(2) by blast
  have "\<bar>a\<bar> \<le> 8 * B" using a(2) b(2) by linarith
  moreover have "scale_if applies rate b = Some a" using True by (simp only: scale_if_def if_True r(1) a(1) Option.bind.simps)
  ultimately show ?thesis by blast
qed

lemma add_total:
  assumes b: "\<bar>b\<bar> \<le> B" "1 \<le> B"
    and L: "11 * B \<le> L" "L < 2 powi 1023" and amount: "\<bar>amount\<bar> \<le> 10"
  shows "\<exists>b'. add_if applies amount b = Some b' \<and> \<bar>b'\<bar> \<le> 32 * B"
proof (cases applies)
  case False
  then show ?thesis using b by (simp add: add_if_def)
next
  case True
  have "\<bar>b + amount\<bar> \<le> 11 * B" using b amount by linarith
  then obtain a where a: "rd (b + amount) = Some a" "\<bar>a\<bar> \<le> 2 * (11 * B) + 1"
    using rd_total[of "b + amount" "11 * B" L] L by blast
  have "\<bar>a\<bar> \<le> 32 * B" using a(2) b(2) by linarith
  moreover have "add_if applies amount b = Some a" using True by (simp only: add_if_def if_True a(1))
  ultimately show ?thesis by blast
qed

text \<open>Below \<open>2 ^ 52\<close> no step of the condition adjustment overflows.\<close>

lemma steps_total:
  assumes g: "1 \<le> screen_condition c" "screen_condition c \<le> 4"
      "1 \<le> body_condition c" "body_condition c \<le> 4"
    and b: "\<bar>b\<bar> \<le> B" "1 \<le> B"
    and L: "2952790016 * B \<le> L" "L < 2 powi 1023"
  shows "\<exists>b5 b7. steps_1_to_5 deduct_rate_first c b = Some b5 \<and> steps_6_to_7 c b5 = Some b7"
proof -
  obtain b1 where b1: "deduct_rate_first (15 / 100) (screen_condition c) b = Some b1"
      "\<bar>b1\<bar> \<le> 128 * B"
    using deduct_total[OF g(1,2) b, of L "15 / 100"] L b(2) by auto
  obtain b2 where b2: "deduct_rate_first (10 / 100) (body_condition c) b1 = Some b2"
      "\<bar>b2\<bar> \<le> 128 * (128 * B)"
    using deduct_total[OF g(3,4) b1(2), of L "10 / 100"] L b(2) by auto
  obtain b3 where b3: "scale_if (\<not> fully_functional c) (4 / 10) b2 = Some b3"
      "\<bar>b3\<bar> \<le> 8 * (128 * (128 * B))"
    using scale_total[OF b2(2), of L "4 / 10" "\<not> fully_functional c"] L b(2) by auto
  obtain b4 where b4: "scale_if (\<not> camera_works c) (8 / 10) b3 = Some b4"
      "\<bar>b4\<bar> \<le> 8 * (8 * (128 * (128 * B)))"
    using scale_total[OF b3(2), of L "8 / 10" "\<not> camera_works c"] L b(2) by auto
  obtain b5 where b5: "scale_if (\<not> battery_health c) (9 / 10) b4 = Some b5"
      "\<bar>b5\<bar> \<le> 8 * (8 * (8 * (128 * (128 * B))))"
    using scale_total[OF b4(2), of L "9 / 10" "\<not> battery_health c"] L b(2) by auto
  obtain b6 where b6: "add_if (original_box c) 10 b5 = Some b6"
      "\<bar>b6\<bar> \<le> 32 * (8 * (8 * (8 * (128 * (128 * B)))))"
    using add_total[OF b5(2), of L 10 "original_box c"] L b(2) by auto
  obtain b7 where b7: "add_if (charger_included c) 5 b6 = Some b7"
      "\<bar>b7\<bar> \<le> 32 * (32 * (8 * (8 * (8 * (128 * (128 * B))))))"
    using add_total[OF b6(2), of L 5 "charger_included c"] L b(2) by auto
  have "steps_1_to_5 deduct_rate_first c b = Some b5"
    by (simp only: steps_1_to_5_def b1(1) b2(1) b3(1) b4(1) b5(1) Option.bind.simps)
  moreover have "steps_6_to_7 c b5 = Some b7"
    by (simp only: steps_6_to_7_def b6(1) b7(1) Option.bind.simps)
  ultimately show ?thesis by blast
qed

lemma offer_by_total:
  assumes "1 \<le> screen_condition c" "screen_condition c \<le> 4"
      "1 \<le> body_condition c" "body_condition c \<le> 4"
    and "0 < baseline" "baseline < 4503599627370496"
  shows "\<exists>offer. offer_by deduct_rate_first c baseline v = Some offer"
proof -
  have "\<bar>baseline\<bar> \<le> 4503599627370496" using assms(5,6) by simp
  moreover have "(1::rat) \<le> 4503599627370496" by simp
  moreover have "(2952790016 :: rat) * 4503599627370496 \<le> 1267650600228229401496703205376" by simp
  ultimately obtain b5 b7 where "steps_1_to_5 deduct_rate_first c baseline = Some b5"
      "steps_6_to_7 c b5 = Some b7"
    using steps_total[OF assms(1-4), of baseline 4503599627370496 1267650600228229401496703205376]
      powi_1023_large
    by blast
  then show ?thesis by (simp only: offer_by_def Option.bind.simps) blast
qed

lemma no_offer_message_nonempty: "no_offer_message \<noteq> []"
  by (simp add: no_offer_message_def js_def)

lemma top_draw: "is_draw (1 - 1 / 2 ^ 53)"
  by code_simp

lemma bonus_of_top_draw: "random_bonus (1 - 1 / 2 ^ 53) = Fin 29"
  by code_simp

lemma bonus_of_zero_draw: "random_bonus 0 = Fin 5"
  by code_simp



section \<open>Exceptions: what is caught and what is not\<close>

text \<open>
  An extractor whose URL cannot be built catches the TypeError and returns 0 without
  fetching; so it does when the fetch is rejected or the body cannot be read, and
  \<open>getCeXPrice\<close> of \<open>server.js\<close> when the status is not a success.
\<close>

lemma extractors_catch_url_error:
  "cex_search_url model storage grade = None \<Longrightarrow>
     getCeXPrice net model storage grade = (Fin 0, [])"
  "magpie_search_url brand model storage = None \<Longrightarrow>
     getMusicMagpiePrice net brand model storage = (Fin 0, [])"
  "cex_search_url_v1 model storage = None \<Longrightarrow>
     getCeXPrice_v1 net model storage = (Fin 0, [])"
  "magpie_search_url brand model storage = None \<Longrightarrow>
     getMusicMagpiePrice_v1 net brand model storage = (Fin 0, [])"
  by (simp_all add: getCeXPrice_def getCeXPrice_try_def getMusicMagpiePrice_def
      getMusicMagpiePrice_try_def getCeXPrice_v1_def getCeXPrice_v1_try_def
      getMusicMagpiePrice_v1_def getMusicMagpiePrice_v1_try_def)

lemma extractors_fail_soft:
  "cex_search_url model storage grade = Some url \<Longrightarrow>
     net url = Rejected \<or> net url = Resolved st None \<Longrightarrow>
     getCeXPrice net model storage grade = (Fin 0, [url])"
  "magpie_search_url brand model storage = Some url' \<Longrightarrow>
     net url' = Rejected \<or> net url' = Resolved st None \<Longrightarrow>
     getMusicMagpiePrice net brand model storage = (Fin 0, [url'])"
  by (auto simp add: getCeXPrice_def getCeXPrice_try_def getMusicMagpiePrice_def
      getMusicMagpiePrice_try_def Let_def)

lemma getCeXPrice_bad_status:
  "cex_search_url model storage grade = Some url \<Longrightarrow>
     net url = Resolved st body \<Longrightarrow> \<not> response_ok st \<Longrightarrow>
     getCeXPrice net model storage grade = (Fin 0, [url])"
  by (simp add: getCeXPrice_def getCeXPrice_try_def Let_def)

text \<open>
  A request whose \<open>brand\<close> is the object \<open>{"toString": 1}\<close> passes validation, and the
  log line throws a TypeError outside the \<open>try\<close> block: no response is sent and nothing
  is fetched. In the earlier version the same object as \<open>screen_condition\<close> throws inside
  the \<open>try\<close> block, and the response has status 500.
\<close>

lemma unprintable_brand_is_not_caught:
  "valid_request ((js ''brand'', JObj [(js ''toString'', JNum (Fin 1))]) # graded_request)
   \<and> get_quote two_prices 0 ((js ''brand'', JObj [(js ''toString'', JNum (Fin 1))]) # graded_request)
       = (Inl TypeError, [])
   \<and> valid_request_v1 ((js ''brand'', JObj [(js ''toString'', JNum (Fin 1))])
        # condition_request (condition_json pristine))
   \<and> get_quote_v1 two_prices 0 ((js ''brand'', JObj [(js ''toString'', JNum (Fin 1))])
        # condition_request (condition_json pristine))
       = (Inl TypeError, [])"
  by code_simp

lemma unprintable_screen_condition_is_caught:
  "fst (get_quote_v1 two_prices 0
     (condition_request (JObj [(js ''screen_condition'', JObj [(js ''toString'', JNum (Fin 1))])])))
   = Inr (Response 500 (JObj [(js ''error'', JStr (js ''An internal server error occurred.''))]))"
  by code_simp

lemma get_quote_invalid:
  "\<not> valid_request body \<Longrightarrow>
     get_quote net random body =
       (Inr (Response 400
          (JObj [(js ''error'', JStr (js ''Please provide all device details, including grade.''))])), [])"
  "\<not> valid_request_v1 body \<Longrightarrow>
     get_quote_v1 net random body =
       (Inr (Response 400 (JObj [(js ''error'', JStr (js ''Please provide all device details.''))])), [])"
  by (auto simp add: get_quote_def get_quote_v1_def valid_request_def valid_request_v1_def Let_def)

lemma get_quote_unprintable:
  "valid_request body \<Longrightarrow> \<not> printable_request body \<Longrightarrow>
     get_quote net random body = (Inl TypeError, [])"
  "valid_request_v1 body \<Longrightarrow> \<not> printable_request_v1 body \<Longrightarrow>
     get_quote_v1 net random body = (Inl TypeError, [])"
  by (simp_all add: get_quote_def get_quote_v1_def valid_request_def valid_request_v1_def
      printable_request_def printable_request_v1_def Let_def)

lemma response_200_called:
  "fst (get_quote net random body) = Inr response \<Longrightarrow> status response = 200 \<Longrightarrow>
     valid_request body \<and> printable_request body"
  "fst (get_quote_v1 net random body) = Inr response \<Longrightarrow> status response = 200 \<Longrightarrow>
     valid_request_v1 body \<and> printable_request_v1 body"
proof -
  show "valid_request body \<and> printable_request body"
    if "fst (get_quote net random body) = Inr response" "status response = 200"
    using that get_quote_invalid(1)[of body net random] get_quote_unprintable(1)[of body net random]
    by (cases "valid_request body"; cases "printable_request body") auto
  show "valid_request_v1 body \<and> printable_request_v1 body"
    if "fst (get_quote_v1 net random body) = Inr response" "status response = 200"
    using that get_quote_invalid(2)[of body net random] get_quote_unprintable(2)[of body net random]
    by (cases "valid_request_v1 body"; cases "printable_request_v1 body") auto
qed

lemma internal_error_not_reached:
  assumes "fst (get_quote net random body) = Inr response"
  shows "status response \<noteq> 500"
proof (cases "valid_request body")
  case False
  then show ?thesis using assms get_quote_invalid(1)[of body net random] by auto
next
  case True
  show ?thesis
  proof (cases "printable_request body")
    case False
    then show ?thesis using assms get_quote_unprintable(1)[OF True, of net random] by simp
  next
    case p: True
    show ?thesis using assms unfolding get_quote_called[OF True p]
      by (auto split: if_splits)
  qed
qed

section \<open>Price texts without a digit\<close>

lemma starts_with_Infinity_no_letter:
  "73 \<notin> set u \<Longrightarrow> \<not> starts_with (js ''Infinity'') u"
  by (cases u) (simp_all add: js_def)

lemma takeWhile_no_digit: "\<forall>c\<in>set u. \<not> is_digit c \<Longrightarrow> takeWhile is_digit u = []"
  by (cases u) simp_all

lemma no_digit_tl: "\<forall>c\<in>set u. \<not> is_digit c \<Longrightarrow> \<forall>c\<in>set (tl u). \<not> is_digit c"
  by (cases u) simp_all

lemma set_take_sign: "set (snd (take_sign t)) \<subseteq> set t"
  by (cases t) (auto simp add: take_sign_def)

lemma parseFloat_no_digit:
  assumes "\<forall>c\<in>set s. \<not> is_digit c" "73 \<notin> set s"
  shows "parseFloat s = NaN"
proof -
  obtain sg u where u: "take_sign (trimStart s) = (sg, u)" by (cases "take_sign (trimStart s)")
  have "set u \<subseteq> set (trimStart s)" using set_take_sign[of "trimStart s"] by (simp add: u)
  also have "\<dots> \<subseteq> set s" by (auto simp add: trimStart_def dest: set_dropWhileD)
  finally have sub: "set u \<subseteq> set s" .
  have nd: "\<forall>c\<in>set u. \<not> is_digit c" using assms(1) sub by auto
  have ni: "\<not> starts_with (js ''Infinity'') u"
    using assms(2) sub by (intro starts_with_Infinity_no_letter) auto
  have ip: "takeWhile is_digit u = []" using nd by (rule takeWhile_no_digit)
  then have r1: "dropWhile is_digit u = u" by (metis takeWhile_dropWhile_id append_Nil)
  have fp: "takeWhile is_digit (tl u) = []" using no_digit_tl[OF nd] by (rule takeWhile_no_digit)
  show ?thesis by (simp add: parseFloat_def u Let_def ni ip r1 fp)
qed

lemma server_js_price_text_without_digit:
  assumes "\<forall>c\<in>set t. \<not> is_digit c"
  shows "(if isNaN (parseFloat (strip_non_numeric t)) then Fin 0
          else parseFloat (strip_non_numeric t)) = Fin 0"
proof -
  have "\<forall>c\<in>set (strip_non_numeric t). \<not> is_digit c"
    using assms by (simp add: strip_non_numeric_def)
  moreover have "73 \<notin> set (strip_non_numeric t)"
    by (auto simp add: strip_non_numeric_def is_digit_def)
  ultimately have "parseFloat (strip_non_numeric t) = NaN" by (rule parseFloat_no_digit)
  then show ?thesis by (simp add: isNaN_def)
qed

text \<open>
  In the earlier version, which removes the pound sign only, a text without a digit
  can be read as a number: \<open>\<pounds>Infinity\<close>.
\<close>

lemma earlier_version_reads_Infinity:
  "cex_price_v1 (site (Resolved 200 (Some (page_with (pound # js ''Infinity'')))) Rejected)
      (condition_request (condition_json pristine)) = PInf
   \<and> cex_price (site (Resolved 200 (Some (page_with (pound # js ''Infinity'')))) Rejected)
      graded_request = Fin 0"
  by code_simp

section \<open>The claims\<close>

text \<open>
  C1 (amended). In the earlier version of the handler, take a request that passes
  validation and whose log line is written, with the JSON form of a condition record
  whose two grades are from 1 to 4, a draw, and \<open>baseline > 0\<close> the larger of the two
  scraped prices. Then the response has status 200 and echoes both prices, and
  \<open>ourPrice\<close> is the offer of the seven steps applied in their order, each operation
  rounded to a double, where steps 1 and 2 multiply the base price by the rate first:
  \<open>basePrice -= (4 - grade) * (basePrice * rate)\<close>. The offer is \<open>round(basePrice)\<close>
  plus \<open>floor(v) + 5\<close>, with \<open>v\<close> the double of the draw times 25. This holds at
  every baseline at which no step overflows, and no step does below \<open>2 ^ 52\<close>; a
  response with status 200 and an \<open>ourPrice\<close> is sent at every baseline. From the
  baseline 100 the record with both
  grades 4, all flags favourable and neither box nor charger keeps 100 through all
  seven steps, and with \<open>fully_functional\<close> false steps 1 to 5 give 40.
\<close>

theorem condition_adjustment_multiplies_by_the_rate_first:
  assumes "valid_request_v1 body" and "printable_request_v1 body" and "is_draw random"
    and "field body ''condition'' = condition_json c"
    and "1 \<le> screen_condition c" "screen_condition c \<le> 4"
    and "1 \<le> body_condition c" "body_condition c \<le> 4"
    and "larger_price (cex_price_v1 net body) (magpie_price_v1 net body) baseline"
    and "0 < baseline"
  shows "(\<exists>v. fl (random * 25) = Fin v \<and> 0 \<le> v \<and> v < 25
            \<and> (\<forall>offer. offer_by deduct_rate_first c baseline v = Some offer \<longrightarrow>
                 fst (get_quote_v1 net random body) =
                   Inr (Response 200
                     (JObj [(js ''ourPrice'', JNum offer),
                            (js ''cexPrice'', JNum (cex_price_v1 net body)),
                            (js ''musicMagpiePrice'', JNum (magpie_price_v1 net body))])))
            \<and> (baseline < 4503599627370496 \<longrightarrow>
                 (\<exists>offer. offer_by deduct_rate_first c baseline v = Some offer)))
       \<and> (\<exists>price. fst (get_quote_v1 net random body) =
                   Inr (Response 200
                     (JObj [(js ''ourPrice'', JNum price),
                            (js ''cexPrice'', JNum (cex_price_v1 net body)),
                            (js ''musicMagpiePrice'', JNum (magpie_price_v1 net body))])))
       \<and> steps_1_to_5 deduct_rate_first pristine 100 = Some 100
       \<and> steps_6_to_7 pristine 100 = Some 100
       \<and> steps_1_to_5 deduct_rate_first (pristine\<lparr>fully_functional := False\<rparr>) 100 = Some 40"
proof -
  let ?c = "cex_price_v1 net body" and ?m = "magpie_price_v1 net body"
  have mx: "Math_max ?c ?m = Fin baseline" using assms(9) by (rule larger_price_Math_max)
  have pos: "\<not> js_le (Fin baseline) (Fin 0)" using assms(10) by simp
  obtain v where v: "fl (random * 25) = Fin v" "0 \<le> v" "v < 25"
      "random_bonus random = Fin (of_int (\<lfloor>v\<rfloor> + 5))"
    using draw_product[OF assms(3)] by blast
  have called: "fst (get_quote_v1 net random body) =
     Inr (case quote_v1_try random (condition_json c) ?c ?m of
            Some response \<Rightarrow> response
          | None \<Rightarrow> Response 500 (JObj [(js ''error'', JStr (js ''An internal server error occurred.''))]))"
    using get_quote_v1_called[OF assms(1,2), of net random] by (simp only: assms(4))
  have offer: "fst (get_quote_v1 net random body) =
                   Inr (Response 200
                     (JObj [(js ''ourPrice'', JNum offer),
                            (js ''cexPrice'', JNum ?c),
                            (js ''musicMagpiePrice'', JNum ?m)]))"
    if given: "offer_by deduct_rate_first c baseline v = Some offer" for offer
  proof -
    obtain b5 b7 where s: "steps_1_to_5 deduct_rate_first c baseline = Some b5"
        "steps_6_to_7 c b5 = Some b7"
        "fl (of_int (\<lfloor>b7 + 1 / 2\<rfloor> + \<lfloor>v\<rfloor> + 5)) = offer"
      using given unfolding offer_by_def bind_eq_Some_conv option.inject by blast
    have ac: "apply_condition (condition_json c) (Fin baseline) = Some (Fin b7)"
      using assms(5-8) s(1,2) by (rule apply_condition_json)
    have eq: "js_add (Math_round (Fin b7)) (random_bonus random) = offer"
      unfolding v(4) rounded_plus_bonus s(3)[symmetric] by (simp only: add.assoc)
    show ?thesis
      unfolding called quote_v1_try_def mx ac Let_def if_not_P[OF pos]
      by (simp only: Option.bind.simps option.case eq)
  qed
  have some: "\<exists>p. apply_condition (condition_json c) (Fin baseline) = Some p"
    by (simp add: apply_condition_def condition_json_def field_def js_eq_iff Let_def)
  then obtain p where p: "apply_condition (condition_json c) (Fin baseline) = Some p" by blast
  have sent: "fst (get_quote_v1 net random body) =
                   Inr (Response 200
                     (JObj [(js ''ourPrice'', JNum (js_add (Math_round p) (random_bonus random))),
                            (js ''cexPrice'', JNum ?c),
                            (js ''musicMagpiePrice'', JNum ?m)]))"
    unfolding called quote_v1_try_def mx p Let_def if_not_P[OF pos]
    by (simp only: Option.bind.simps option.case)
  have e1: "steps_1_to_5 deduct_rate_first pristine 100 = Some 100" by code_simp
  have e2: "steps_6_to_7 pristine 100 = Some 100" by code_simp
  have e3: "steps_1_to_5 deduct_rate_first (pristine\<lparr>fully_functional := False\<rparr>) 100 = Some 40"
    by code_simp
  have total: "baseline < 4503599627370496 \<longrightarrow>
      (\<exists>offer. offer_by deduct_rate_first c baseline v = Some offer)"
    using offer_by_total[OF assms(5-8) assms(10)] by blast
  show ?thesis using v(1-3) offer total sent e1 e2 e3 by blast
qed

text \<open>
  As stated, with the deduction \<open>(4 - screen_condition) * basePrice * 0.15\<close>, the claim
  fails: when CeX shows the price 13.636363636363635, the screen grade is 1 and the
  draw is 0, the handler answers \<open>ourPrice\<close> 13. The product taken from left to right
  in doubles gives a base price below 7.5 and the offer 12, and so does the same
  expression in exact arithmetic; the handler, which multiplies the price by 0.15
  first, gets the double 7.5, which rounds to 8.
\<close>

theorem left_to_right_product_counterexample:
  "fst (get_quote_v1 long_price 0 (condition_request (condition_json (pristine\<lparr>screen_condition := 1\<rparr>))))
     = Inr (Response 200
         (JObj [(js ''ourPrice'', JNum (Fin 13)),
                (js ''cexPrice'', JNum (Fin (7676590273926981 / 562949953421312))),
                (js ''musicMagpiePrice'', JNum (Fin 0))]))
   \<and> fl (0 * 25) = Fin 0
   \<and> offer_by deduct_as_specified (pristine\<lparr>screen_condition := 1\<rparr>)
        (7676590273926981 / 562949953421312) 0 = Some (Fin 12)
   \<and> \<lfloor>(7676590273926981 / 562949953421312 :: rat)
        - of_int (4 - 1) * (7676590273926981 / 562949953421312) * (15 / 100) + 1 / 2\<rfloor> + 5 = 12"
  by code_simp

text \<open>
  The amended statement at a worn phone (screen grade 3, body grade 2, not fully
  functional, camera broken, with box and charger), CeX at 99.50 and the draw 1/2:
  the offer is 54.
\<close>

theorem condition_adjustment_multiplies_by_the_rate_first_witness:
  "valid_request_v1 (condition_request (condition_json worn))
   \<and> printable_request_v1 (condition_request (condition_json worn))
   \<and> is_draw (1 / 2)
   \<and> larger_price (cex_price_v1 half_pound_prices (condition_request (condition_json worn)))
        (magpie_price_v1 half_pound_prices (condition_request (condition_json worn))) (199 / 2)
   \<and> offer_by deduct_rate_first worn (199 / 2) (25 / 2) = Some (Fin 54)
   \<and> fst (get_quote_v1 half_pound_prices (1 / 2) (condition_request (condition_json worn))) =
       Inr (Response 200 (JObj [(js ''ourPrice'', JNum (Fin 54)), (js ''cexPrice'', JNum (Fin (199 / 2))),
                                (js ''musicMagpiePrice'', JNum (Fin 80))]))"
proof -
  let ?body = "condition_request (condition_json worn)"
  have v: "valid_request_v1 ?body" by code_simp
  have p: "printable_request_v1 ?body" by code_simp
  have d: "is_draw (1 / 2)" by code_simp
  have f: "field ?body ''condition'' = condition_json worn" by code_simp
  have g: "1 \<le> screen_condition worn" "screen_condition worn \<le> 4"
      "1 \<le> body_condition worn" "body_condition worn \<le> 4"
    by (simp_all add: worn_def)
  have c: "cex_price_v1 half_pound_prices ?body = Fin (199 / 2)" by code_simp
  have m: "magpie_price_v1 half_pound_prices ?body = Fin 80" by code_simp
  have l: "larger_price (cex_price_v1 half_pound_prices ?body)
             (magpie_price_v1 half_pound_prices ?body) (199 / 2)"
    unfolding c m by code_simp
  have b: "(0::rat) < 199 / 2" by simp
  have x: "fl (1 / 2 * 25) = Fin (25 / 2)" by code_simp
  have o: "offer_by deduct_rate_first worn (199 / 2) (25 / 2) = Some (Fin 54)" by code_simp
  obtain w where w: "fl (1 / 2 * 25) = Fin w"
    "\<forall>offer. offer_by deduct_rate_first worn (199 / 2) w = Some offer \<longrightarrow>
       fst (get_quote_v1 half_pound_prices (1 / 2) ?body) =
         Inr (Response 200 (JObj [(js ''ourPrice'', JNum offer),
                (js ''cexPrice'', JNum (cex_price_v1 half_pound_prices ?body)),
                (js ''musicMagpiePrice'', JNum (magpie_price_v1 half_pound_prices ?body))]))"
    using condition_adjustment_multiplies_by_the_rate_first[OF v p d f g l b, THEN conjunct1]
    by blast
  have "w = 25 / 2" using w(1) x by simp
  then have "fst (get_quote_v1 half_pound_prices (1 / 2) ?body) =
         Inr (Response 200 (JObj [(js ''ourPrice'', JNum (Fin 54)),
                (js ''cexPrice'', JNum (cex_price_v1 half_pound_prices ?body)),
                (js ''musicMagpiePrice'', JNum (magpie_price_v1 half_pound_prices ?body))]))"
    using w(2) o by blast
  then have "fst (get_quote_v1 half_pound_prices (1 / 2) ?body) =
       Inr (Response 200 (JObj [(js ''ourPrice'', JNum (Fin 54)), (js ''cexPrice'', JNum (Fin (199 / 2))),
                                (js ''musicMagpiePrice'', JNum (Fin 80))]))"
    unfolding c m .
  with v p d l o show ?thesis by (intro conjI)
qed

text \<open>
  C2. For every value of the random draw (a double in \<open>[0, 1)\<close>) the bonus
  \<open>Math.floor(Math.random() * 25) + 5\<close> is an integer from 5 to 29: the value 30 of the
  claimed range \<open>[5, 30]\<close> is not attained by any draw.
\<close>

theorem random_bonus_never_reaches_30:
  assumes "is_draw random"
  shows "(\<exists>k. random_bonus random = Fin (of_int k) \<and> 5 \<le> k \<and> k \<le> 29)
       \<and> random_bonus random \<noteq> Fin 30"
proof -
  obtain k where k: "random_bonus random = Fin (of_int k)" "5 \<le> k" "k \<le> 29"
    using random_bonus_range[OF assms] by blast
  have "(of_int k :: rat) \<noteq> of_int 30" using k(3) by (simp only: of_int_eq_iff)
  then have "random_bonus random \<noteq> Fin 30" by (simp add: k(1))
  with k show ?thesis by blast
qed

text \<open>
  The largest draw, \<open>1 - 2 ^ - 53\<close>, gives the bonus 29, and the draw 0 gives 5.
\<close>

theorem random_bonus_never_reaches_30_witness:
  "is_draw (1 - 1 / 2 ^ 53) \<and> random_bonus (1 - 1 / 2 ^ 53) = Fin 29
   \<and> random_bonus (1 - 1 / 2 ^ 53) \<noteq> Fin 30 \<and> random_bonus 0 = Fin 5"
  using random_bonus_never_reaches_30[OF top_draw] top_draw bonus_of_top_draw bonus_of_zero_draw
  by simp

text \<open>
  C3. In \<open>server.js\<close>, take a request that passes validation and whose log line is
  written, and a draw. When \<open>baseline > 0\<close> is the larger of the two scraped prices,
  the response has status 200, echoes both prices unchanged, and \<open>ourPrice\<close> is the
  double of \<open>floor(baseline + 1/2) + floor(v) + 5\<close>, with \<open>v\<close> the double of the draw
  times 25: the baseline rounded, halves up, plus the bonus, and nothing else applied.
  Below \<open>2 ^ 52\<close> that double is the integer itself. When a scraped price is
  \<open>Infinity\<close>, \<open>ourPrice\<close> is \<open>Infinity\<close>.
\<close>

theorem offer_is_rounded_maximum_plus_bonus:
  assumes "valid_request body" and "printable_request body" and "is_draw random"
  shows "(larger_price (cex_price net body) (magpie_price net body) baseline \<and> 0 < baseline \<longrightarrow>
          (\<exists>v. fl (random * 25) = Fin v \<and> 0 \<le> v \<and> v < 25
             \<and> fst (get_quote net random body) =
                 Inr (Response 200
                   (JObj [(js ''ourPrice'', JNum (fl (of_int (\<lfloor>baseline + 1 / 2\<rfloor> + \<lfloor>v\<rfloor> + 5)))),
                          (js ''cexPrice'', JNum (cex_price net body)),
                          (js ''musicMagpiePrice'', JNum (magpie_price net body))]))
             \<and> (baseline < 4503599627370496 \<longrightarrow>
                  fl (of_int (\<lfloor>baseline + 1 / 2\<rfloor> + \<lfloor>v\<rfloor> + 5))
                    = Fin (of_int (\<lfloor>baseline + 1 / 2\<rfloor> + \<lfloor>v\<rfloor> + 5)))))
       \<and> (cex_price net body = PInf \<or> magpie_price net body = PInf \<longrightarrow>
            fst (get_quote net random body) =
              Inr (Response 200
                (JObj [(js ''ourPrice'', JNum PInf),
                       (js ''cexPrice'', JNum (cex_price net body)),
                       (js ''musicMagpiePrice'', JNum (magpie_price net body))])))"
proof (intro conjI impI)
  let ?c = "cex_price net body" and ?m = "magpie_price net body"
  obtain v where v: "fl (random * 25) = Fin v" "0 \<le> v" "v < 25"
      "random_bonus random = Fin (of_int (\<lfloor>v\<rfloor> + 5))"
    using draw_product[OF assms(3)] by blast
  {
    assume a: "larger_price ?c ?m baseline \<and> 0 < baseline"
    then have mx: "Math_max ?c ?m = Fin baseline" by (simp add: larger_price_Math_max)
    have pos: "\<not> js_le (Fin baseline) (Fin 0)" using a by simp
    have "js_add (Math_round (Fin baseline)) (random_bonus random)
            = fl (of_int (\<lfloor>baseline + 1 / 2\<rfloor> + \<lfloor>v\<rfloor> + 5))"
      unfolding v(4) rounded_plus_bonus by (simp only: add.assoc)
    then have r: "fst (get_quote net random body) =
                 Inr (Response 200
                   (JObj [(js ''ourPrice'', JNum (fl (of_int (\<lfloor>baseline + 1 / 2\<rfloor> + \<lfloor>v\<rfloor> + 5)))),
                          (js ''cexPrice'', JNum ?c),
                          (js ''musicMagpiePrice'', JNum ?m)]))"
      unfolding get_quote_called[OF assms(1,2)] mx if_not_P[OF pos]
      by (simp only:)
    have "baseline < 4503599627370496 \<longrightarrow>
                  fl (of_int (\<lfloor>baseline + 1 / 2\<rfloor> + \<lfloor>v\<rfloor> + 5))
                    = Fin (of_int (\<lfloor>baseline + 1 / 2\<rfloor> + \<lfloor>v\<rfloor> + 5))"
      using a v(2,3) small_offer_exact[of baseline v] by blast
    with v(1-3) r
    show "\<exists>v. fl (random * 25) = Fin v \<and> 0 \<le> v \<and> v < 25
             \<and> fst (get_quote net random body) =
                 Inr (Response 200
                   (JObj [(js ''ourPrice'', JNum (fl (of_int (\<lfloor>baseline + 1 / 2\<rfloor> + \<lfloor>v\<rfloor> + 5)))),
                          (js ''cexPrice'', JNum (cex_price net body)),
                          (js ''musicMagpiePrice'', JNum (magpie_price net body))]))
             \<and> (baseline < 4503599627370496 \<longrightarrow>
                  fl (of_int (\<lfloor>baseline + 1 / 2\<rfloor> + \<lfloor>v\<rfloor> + 5))
                    = Fin (of_int (\<lfloor>baseline + 1 / 2\<rfloor> + \<lfloor>v\<rfloor> + 5)))"
      by blast
  }
  {
    assume "?c = PInf \<or> ?m = PInf"
    then have mx: "Math_max ?c ?m = PInf" using price_not_NaN(1,2) by (intro Math_max_PInf)
    show "fst (get_quote net random body) =
              Inr (Response 200
                (JObj [(js ''ourPrice'', JNum PInf),
                       (js ''cexPrice'', JNum (cex_price net body)),
                       (js ''musicMagpiePrice'', JNum (magpie_price net body))]))"
      by (simp add: get_quote_called[OF assms(1,2)] mx v(4))
  }
qed

text \<open>
  With CeX at 99.50, MusicMagpie at 80.00 and the draw 1/2 the offer is
  \<open>100 + 12 + 5 = 117\<close>.
\<close>

theorem offer_is_rounded_maximum_plus_bonus_witness:
  "valid_request graded_request \<and> printable_request graded_request \<and> is_draw (1 / 2)
   \<and> larger_price (cex_price half_pound_prices graded_request)
        (magpie_price half_pound_prices graded_request) (199 / 2)
   \<and> fst (get_quote half_pound_prices (1 / 2) graded_request) =
       Inr (Response 200 (JObj [(js ''ourPrice'', JNum (Fin 117)), (js ''cexPrice'', JNum (Fin (199 / 2))),
                                (js ''musicMagpiePrice'', JNum (Fin 80))]))"
proof -
  have v: "valid_request graded_request" by code_simp
  have p: "printable_request graded_request" by code_simp
  have d: "is_draw (1 / 2)" by code_simp
  have c: "cex_price half_pound_prices graded_request = Fin (199 / 2)" by code_simp
  have m: "magpie_price half_pound_prices graded_request = Fin 80" by code_simp
  have l: "larger_price (cex_price half_pound_prices graded_request)
             (magpie_price half_pound_prices graded_request) (199 / 2)"
    unfolding c m by code_simp
  have b: "(0::rat) < 199 / 2" "(199 / 2 :: rat) < 4503599627370496" by simp_all
  have x: "fl (1 / 2 * 25) = Fin (25 / 2)" by code_simp
  have k: "\<lfloor>(199 / 2 :: rat) + 1 / 2\<rfloor> + \<lfloor>(25 / 2 :: rat)\<rfloor> + 5 = 117" by code_simp
  obtain w where w: "fl (1 / 2 * 25) = Fin w"
    "fst (get_quote half_pound_prices (1 / 2) graded_request) =
       Inr (Response 200
         (JObj [(js ''ourPrice'', JNum (fl (of_int (\<lfloor>(199 / 2 :: rat) + 1 / 2\<rfloor> + \<lfloor>w\<rfloor> + 5)))),
                (js ''cexPrice'', JNum (cex_price half_pound_prices graded_request)),
                (js ''musicMagpiePrice'', JNum (magpie_price half_pound_prices graded_request))]))"
    "fl (of_int (\<lfloor>(199 / 2 :: rat) + 1 / 2\<rfloor> + \<lfloor>w\<rfloor> + 5))
       = Fin (of_int (\<lfloor>(199 / 2 :: rat) + 1 / 2\<rfloor> + \<lfloor>w\<rfloor> + 5))"
    using offer_is_rounded_maximum_plus_bonus[OF v p d, THEN conjunct1,
        of half_pound_prices "199 / 2"] l b
    by blast
  have w': "w = 25 / 2" using w(1) x by simp
  have r: "fst (get_quote half_pound_prices (1 / 2) graded_request) =
       Inr (Response 200 (JObj [(js ''ourPrice'', JNum (fl (of_int 117))), (js ''cexPrice'', JNum (Fin (199 / 2))),
                                (js ''musicMagpiePrice'', JNum (Fin 80))]))"
    using w(2) unfolding w' k c m .
  have e: "fl (of_int 117) = Fin (of_int 117)" using w(3) unfolding w' k .
  have "fst (get_quote half_pound_prices (1 / 2) graded_request) =
       Inr (Response 200 (JObj [(js ''ourPrice'', JNum (Fin 117)), (js ''cexPrice'', JNum (Fin (199 / 2))),
                                (js ''musicMagpiePrice'', JNum (Fin 80))]))"
    unfolding r e by simp
  with v p d l show ?thesis by (intro conjI)
qed

text \<open>
  C4 (amended). The message is not empty. For a request that passes validation and
  whose log line is written, in both versions, a response is sent; if both extractors
  return 0 it has status 200, \<open>ourPrice\<close>, \<open>cexPrice\<close> and \<open>musicMagpiePrice\<close> equal
  to 0 and the message; and the message field is present exactly when the larger of
  the two prices is at most 0, that is when neither price is above 0, which besides
  the case of two zeros covers a negative scraped price.
\<close>

theorem message_exactly_when_no_positive_price:
  "no_offer_message \<noteq> []
   \<and> (valid_request body \<and> printable_request body \<longrightarrow>
        (\<exists>response. fst (get_quote net random body) = Inr response
           \<and> (cex_price net body = Fin 0 \<and> magpie_price net body = Fin 0 \<longrightarrow>
                response =
                  Response 200 (JObj [(js ''ourPrice'', JNum (Fin 0)), (js ''cexPrice'', JNum (Fin 0)),
                                      (js ''musicMagpiePrice'', JNum (Fin 0)),
                                      (js ''message'', JStr no_offer_message)]))
           \<and> (payload_field response ''message'' \<noteq> JUndefined
                \<longleftrightarrow> js_le (Math_max (cex_price net body) (magpie_price net body)) (Fin 0)))
        \<and> (js_le (Math_max (cex_price net body) (magpie_price net body)) (Fin 0)
             \<longleftrightarrow> at_most (cex_price net body) 0 \<and> at_most (magpie_price net body) 0))
   \<and> (valid_request_v1 body \<and> printable_request_v1 body \<longrightarrow>
        (\<exists>response. fst (get_quote_v1 net random body) = Inr response
           \<and> (cex_price_v1 net body = Fin 0 \<and> magpie_price_v1 net body = Fin 0 \<longrightarrow>
                response =
                  Response 200 (JObj [(js ''ourPrice'', JNum (Fin 0)), (js ''cexPrice'', JNum (Fin 0)),
                                      (js ''musicMagpiePrice'', JNum (Fin 0)),
                                      (js ''message'', JStr no_offer_message)]))
           \<and> (payload_field response ''message'' \<noteq> JUndefined
                \<longleftrightarrow> js_le (Math_max (cex_price_v1 net body) (magpie_price_v1 net body)) (Fin 0)))
        \<and> (js_le (Math_max (cex_price_v1 net body) (magpie_price_v1 net body)) (Fin 0)
             \<longleftrightarrow> at_most (cex_price_v1 net body) 0 \<and> at_most (magpie_price_v1 net body) 0))"
proof (intro conjI impI)
  show "no_offer_message \<noteq> []" by (rule no_offer_message_nonempty)
next
  assume a: "valid_request body \<and> printable_request body"
  let ?c = "cex_price net body" and ?m = "magpie_price net body"
  note called = get_quote_called[OF conjunct1[OF a] conjunct2[OF a], of net random]
  show "\<exists>response. fst (get_quote net random body) = Inr response
           \<and> (?c = Fin 0 \<and> ?m = Fin 0 \<longrightarrow>
                response =
                  Response 200 (JObj [(js ''ourPrice'', JNum (Fin 0)), (js ''cexPrice'', JNum (Fin 0)),
                                      (js ''musicMagpiePrice'', JNum (Fin 0)),
                                      (js ''message'', JStr no_offer_message)]))
           \<and> (payload_field response ''message'' \<noteq> JUndefined
                \<longleftrightarrow> js_le (Math_max ?c ?m) (Fin 0))"
  proof (cases "js_le (Math_max ?c ?m) (Fin 0)")
    case True
    have "fst (get_quote net random body) = Inr (Response 200
            (JObj [(js ''ourPrice'', JNum (Fin 0)), (js ''cexPrice'', JNum ?c),
                   (js ''musicMagpiePrice'', JNum ?m), (js ''message'', JStr no_offer_message)]))"
      unfolding called if_P[OF True] by (rule refl)
    then show ?thesis using True no_offer_message_nonempty
      by (auto simp add: field_def js_eq_iff)
  next
    case False
    have z: "\<not> (?c = Fin 0 \<and> ?m = Fin 0)" using False by (auto simp add: Math_max_def isNaN_def)
    have "fst (get_quote net random body) = Inr (Response 200
            (JObj [(js ''ourPrice'', JNum (js_add (Math_round (Math_max ?c ?m)) (random_bonus random))),
                   (js ''cexPrice'', JNum ?c), (js ''musicMagpiePrice'', JNum ?m)]))"
      unfolding called if_not_P[OF False] by (rule refl)
    then show ?thesis using False z by (simp add: field_def js_eq_iff)
  qed
  show "js_le (Math_max ?c ?m) (Fin 0) \<longleftrightarrow> at_most ?c 0 \<and> at_most ?m 0"
    using price_not_NaN(1,2) by (rule no_positive_price_iff)
next
  assume a: "valid_request_v1 body \<and> printable_request_v1 body"
  let ?c = "cex_price_v1 net body" and ?m = "magpie_price_v1 net body"
  note called = get_quote_v1_called[OF conjunct1[OF a] conjunct2[OF a], of net random]
  show "\<exists>response. fst (get_quote_v1 net random body) = Inr response
           \<and> (?c = Fin 0 \<and> ?m = Fin 0 \<longrightarrow>
                response =
                  Response 200 (JObj [(js ''ourPrice'', JNum (Fin 0)), (js ''cexPrice'', JNum (Fin 0)),
                                      (js ''musicMagpiePrice'', JNum (Fin 0)),
                                      (js ''message'', JStr no_offer_message)]))
           \<and> (payload_field response ''message'' \<noteq> JUndefined
                \<longleftrightarrow> js_le (Math_max ?c ?m) (Fin 0))"
  proof (cases "js_le (Math_max ?c ?m) (Fin 0)")
    case True
    have "fst (get_quote_v1 net random body) = Inr (Response 200
            (JObj [(js ''ourPrice'', JNum (Fin 0)), (js ''cexPrice'', JNum ?c),
                   (js ''musicMagpiePrice'', JNum ?m), (js ''message'', JStr no_offer_message)]))"
      unfolding called quote_v1_try_def Let_def if_P[OF True] option.case by (rule refl)
    then show ?thesis using True no_offer_message_nonempty
      by (auto simp add: field_def js_eq_iff)
  next
    case False
    have z: "\<not> (?c = Fin 0 \<and> ?m = Fin 0)" using False by (auto simp add: Math_max_def isNaN_def)
    show ?thesis
    proof (cases "apply_condition (field body ''condition'') (Math_max ?c ?m)")
      case None
      have "fst (get_quote_v1 net random body) = Inr (Response 500
              (JObj [(js ''error'', JStr (js ''An internal server error occurred.''))]))"
        unfolding called quote_v1_try_def Let_def if_not_P[OF False] None
        by (simp only: Option.bind.simps option.case)
      then show ?thesis using False z by (simp add: field_def js_eq_iff)
    next
      case (Some p)
      have "fst (get_quote_v1 net random body) = Inr (Response 200
              (JObj [(js ''ourPrice'', JNum (js_add (Math_round p) (random_bonus random))),
                     (js ''cexPrice'', JNum ?c), (js ''musicMagpiePrice'', JNum ?m)]))"
        unfolding called quote_v1_try_def Let_def if_not_P[OF False] Some
        by (simp only: Option.bind.simps option.case)
      then show ?thesis using False z by (simp add: field_def js_eq_iff)
    qed
  qed
  show "js_le (Math_max ?c ?m) (Fin 0) \<longleftrightarrow> at_most ?c 0 \<and> at_most ?m 0"
    using price_not_NaN(3,4) by (rule no_positive_price_iff)
qed

text \<open>
  As stated, with two zeros as the only case that carries the message, the claim fails:
  when the CeX page shows the text \<open>-\<pounds>5.00\<close> and MusicMagpie is unreachable, the
  CeX price is -5, not 0, and the response carries the message.
\<close>

theorem message_with_negative_price_counterexample:
  "valid_request graded_request \<and> printable_request graded_request
   \<and> fst (get_quote (site (Resolved 200 (Some (page_with ([45, pound] @ js ''5.00'')))) Rejected) 0
            graded_request)
     = Inr (Response 200 (JObj [(js ''ourPrice'', JNum (Fin 0)), (js ''cexPrice'', JNum (Fin (- 5))),
                                (js ''musicMagpiePrice'', JNum (Fin 0)),
                                (js ''message'', JStr no_offer_message)]))
   \<and> cex_price (site (Resolved 200 (Some (page_with ([45, pound] @ js ''5.00'')))) Rejected) graded_request
     \<noteq> Fin 0"
  by code_simp

text \<open>
  The amended statement at a concrete request, with both sites unreachable.
\<close>

theorem message_exactly_when_no_positive_price_witness:
  "valid_request graded_request \<and> printable_request graded_request
   \<and> cex_price unreachable graded_request = Fin 0 \<and> magpie_price unreachable graded_request = Fin 0
   \<and> fst (get_quote unreachable 0 graded_request) =
       Inr (Response 200 (JObj [(js ''ourPrice'', JNum (Fin 0)), (js ''cexPrice'', JNum (Fin 0)),
                           (js ''musicMagpiePrice'', JNum (Fin 0)),
                           (js ''message'', JStr no_offer_message)]))
   \<and> valid_request_v1 (condition_request (condition_json pristine))
   \<and> printable_request_v1 (condition_request (condition_json pristine))
   \<and> fst (get_quote_v1 unreachable 0 (condition_request (condition_json pristine))) =
       Inr (Response 200 (JObj [(js ''ourPrice'', JNum (Fin 0)), (js ''cexPrice'', JNum (Fin 0)),
                           (js ''musicMagpiePrice'', JNum (Fin 0)),
                           (js ''message'', JStr no_offer_message)]))"
proof -
  let ?body = "condition_request (condition_json pristine)"
  have v: "valid_request graded_request" by code_simp
  have p: "printable_request graded_request" by code_simp
  have c: "cex_price unreachable graded_request = Fin 0" by code_simp
  have m: "magpie_price unreachable graded_request = Fin 0" by code_simp
  have v1: "valid_request_v1 ?body" by code_simp
  have p1: "printable_request_v1 ?body" by code_simp
  have c1: "cex_price_v1 unreachable ?body = Fin 0" by code_simp
  have m1: "magpie_price_v1 unreachable ?body = Fin 0" by code_simp
  show ?thesis
    using message_exactly_when_no_positive_price[of graded_request unreachable 0]
      message_exactly_when_no_positive_price[of ?body unreachable 0]
      v p c m v1 p1 c1 m1
    by blast
qed

text \<open>
  C5. On the price text \<open>\<pounds>1,234.56\<close> both extractors of \<open>server.js\<close> return the double
  1234.56, while both extractors of the earlier version, which remove only the pound
  sign, return 1: \<open>parseFloat\<close> stops at the comma. On the price text \<open>Call us\<close> all
  four extractors return 0.
\<close>

theorem comma_price_parsed_by_server_js_but_not_by_earlier_version:
  "cex_price (site (Resolved 200 (Some (page_with (pound # js ''1,234.56'')))) Rejected) graded_request
     = lit (123456 / 100)
   \<and> magpie_price (site Rejected (Resolved 200 (Some (page_with (pound # js ''1,234.56''))))) graded_request
     = lit (123456 / 100)
   \<and> cex_price_v1 (site (Resolved 200 (Some (page_with (pound # js ''1,234.56'')))) Rejected)
        (condition_request (condition_json pristine)) = Fin 1
   \<and> magpie_price_v1 (site Rejected (Resolved 200 (Some (page_with (pound # js ''1,234.56'')))))
        (condition_request (condition_json pristine)) = Fin 1
   \<and> cex_price (site (Resolved 200 (Some (page_with (js ''Call us'')))) Rejected) graded_request = Fin 0
   \<and> magpie_price (site Rejected (Resolved 200 (Some (page_with (js ''Call us''))))) graded_request = Fin 0
   \<and> cex_price_v1 (site (Resolved 200 (Some (page_with (js ''Call us'')))) Rejected)
        (condition_request (condition_json pristine)) = Fin 0
   \<and> magpie_price_v1 (site Rejected (Resolved 200 (Some (page_with (js ''Call us'')))))
        (condition_request (condition_json pristine)) = Fin 0"
  by code_simp

text \<open>
  C6. On a response with status 404 whose body carries a price, \<open>getCeXPrice\<close> of
  \<open>server.js\<close> returns 0, but \<open>getMusicMagpiePrice\<close>, which does not look at the
  status, returns the price of the body.
\<close>

theorem magpie_extractor_ignores_http_status:
  "\<not> response_ok 404
   \<and> magpie_price (site Rejected (Resolved 404 (Some (page_with (pound # js ''50.00''))))) graded_request
     = Fin 50
   \<and> cex_price (site (Resolved 404 (Some (page_with (pound # js ''50.00'')))) Rejected) graded_request
     = Fin 0"
  by code_simp

text \<open>
  C7 (amended). Whatever its arguments and whatever the network does, no extractor of
  either version returns NaN; and an extractor returns a number below 0 only when the
  page it fetched was delivered and the price text it hands to \<open>parseFloat\<close> (the text
  of its own selector, after its own stripping step) begins with a minus sign. For a
  number other than NaN, below 0 is the same as not at least 0.
\<close>

theorem extractors_never_NaN_and_negative_only_after_leading_minus:
  "fst (getCeXPrice net model storage grade) \<noteq> NaN
   \<and> fst (getMusicMagpiePrice net brand model storage) \<noteq> NaN
   \<and> fst (getCeXPrice_v1 net model storage) \<noteq> NaN
   \<and> fst (getMusicMagpiePrice_v1 net brand model storage) \<noteq> NaN
   \<and> (negative (fst (getCeXPrice net model storage grade)) \<longrightarrow>
        (\<exists>url st html. cex_search_url model storage grade = Some url
           \<and> net url = Resolved st (Some html)
           \<and> leading_minus (strip_non_numeric (box_sell_price html))))
   \<and> (negative (fst (getMusicMagpiePrice net brand model storage)) \<longrightarrow>
        (\<exists>url st html. magpie_search_url brand model storage = Some url
           \<and> net url = Resolved st (Some html)
           \<and> leading_minus (strip_non_numeric (trim (product_price_now html)))))
   \<and> (negative (fst (getCeXPrice_v1 net model storage)) \<longrightarrow>
        (\<exists>url st html. cex_search_url_v1 model storage = Some url
           \<and> net url = Resolved st (Some html)
           \<and> leading_minus (remove_first pound (sell_price_info html))))
   \<and> (negative (fst (getMusicMagpiePrice_v1 net brand model storage)) \<longrightarrow>
        (\<exists>url st html. magpie_search_url brand model storage = Some url
           \<and> net url = Resolved st (Some html)
           \<and> leading_minus (remove_first pound (trim (product_price_now html)))))
   \<and> (\<forall>p. p \<noteq> NaN \<longrightarrow> (negative p \<longleftrightarrow> \<not> js_le (Fin 0) p))"
proof (intro conjI impI allI)
  fix p :: jsnum
  assume "p \<noteq> NaN"
  then show "negative p \<longleftrightarrow> \<not> js_le (Fin 0) p"
    by (cases p) (auto simp add: negative_def)
qed (rule getCeXPrice_not_NaN getMusicMagpiePrice_not_NaN getCeXPrice_v1_not_NaN
       getMusicMagpiePrice_v1_not_NaN
   | erule getCeXPrice_negative getMusicMagpiePrice_negative getCeXPrice_v1_negative
       getMusicMagpiePrice_v1_negative)+

text \<open>
  As stated, for every page content, the claim fails: on the price text \<open>-\<pounds>5.00\<close>
  \<open>getCeXPrice\<close> returns -5.
\<close>

theorem negative_price_counterexample:
  "cex_price (site (Resolved 200 (Some (page_with ([45, pound] @ js ''5.00'')))) Rejected) graded_request
     = Fin (- 5)
   \<and> js_lt (Fin (- 5)) (Fin 0)"
  by code_simp

text \<open>
  The amended statement where CeX shows \<open>-\<pounds>5.00\<close>: both CeX extractors return a
  negative number, and the text begins with a minus sign. On the MusicMagpie text
  \<open>\<pounds>5.00 - \<pounds>10.00\<close>, whose minus sign is not the first character read, both
  MusicMagpie extractors return 5; on \<open>-\<pounds>5.00\<close> they return a negative number.
\<close>

theorem extractors_never_NaN_and_negative_only_after_leading_minus_witness:
  "negative (fst (getCeXPrice minus_prices (JStr (js ''iPhone 14 Pro'')) (JStr (js ''128GB''))
                    (JStr (js ''A''))))
   \<and> (\<exists>url st html.
         cex_search_url (JStr (js ''iPhone 14 Pro'')) (JStr (js ''128GB'')) (JStr (js ''A'')) = Some url
         \<and> minus_prices url = Resolved st (Some html)
         \<and> leading_minus (strip_non_numeric (box_sell_price html)))
   \<and> negative (fst (getCeXPrice_v1 minus_prices (JStr (js ''iPhone 14 Pro'')) (JStr (js ''128GB''))))
   \<and> (\<exists>url st html.
         cex_search_url_v1 (JStr (js ''iPhone 14 Pro'')) (JStr (js ''128GB'')) = Some url
         \<and> minus_prices url = Resolved st (Some html)
         \<and> leading_minus (remove_first pound (sell_price_info html)))
   \<and> fst (getMusicMagpiePrice minus_prices (JStr (js ''Apple'')) (JStr (js ''iPhone 14 Pro''))
            (JStr (js ''128GB''))) = Fin 5
   \<and> fst (getMusicMagpiePrice_v1 minus_prices (JStr (js ''Apple'')) (JStr (js ''iPhone 14 Pro''))
            (JStr (js ''128GB''))) = Fin 5
   \<and> negative (fst (getMusicMagpiePrice
         (site Rejected (Resolved 200 (Some (page_with ([45, pound] @ js ''5.00'')))))
         (JStr (js ''Apple'')) (JStr (js ''iPhone 14 Pro'')) (JStr (js ''128GB''))))
   \<and> negative (fst (getMusicMagpiePrice_v1
         (site Rejected (Resolved 200 (Some (page_with ([45, pound] @ js ''5.00'')))))
         (JStr (js ''Apple'')) (JStr (js ''iPhone 14 Pro'')) (JStr (js ''128GB''))))
   \<and> (\<exists>url st html.
         magpie_search_url (JStr (js ''Apple'')) (JStr (js ''iPhone 14 Pro'')) (JStr (js ''128GB''))
           = Some url
         \<and> site Rejected (Resolved 200 (Some (page_with ([45, pound] @ js ''5.00'')))) url
           = Resolved st (Some html)
         \<and> leading_minus (strip_non_numeric (trim (product_price_now html))))"
proof -
  let ?M = "JStr (js ''iPhone 14 Pro'')" and ?S = "JStr (js ''128GB'')" and ?G = "JStr (js ''A'')"
    and ?B = "JStr (js ''Apple'')"
  let ?net = "site Rejected (Resolved 200 (Some (page_with ([45, pound] @ js ''5.00''))))"
  have n1: "negative (fst (getCeXPrice minus_prices ?M ?S ?G))" by code_simp
  have n2: "negative (fst (getCeXPrice_v1 minus_prices ?M ?S))" by code_simp
  have m1: "fst (getMusicMagpiePrice minus_prices ?B ?M ?S) = Fin 5" by code_simp
  have m2: "fst (getMusicMagpiePrice_v1 minus_prices ?B ?M ?S) = Fin 5" by code_simp
  have n3: "negative (fst (getMusicMagpiePrice ?net ?B ?M ?S))" by code_simp
  have n4: "negative (fst (getMusicMagpiePrice_v1 ?net ?B ?M ?S))" by code_simp
  show ?thesis
    using extractors_never_NaN_and_negative_only_after_leading_minus[of minus_prices ?M ?S ?G ?B]
      extractors_never_NaN_and_negative_only_after_leading_minus[of ?net ?M ?S ?G ?B]
      n1 n2 m1 m2 n3 n4
    by blast
qed

text \<open>
  C8. If \<open>brand\<close>, \<open>model\<close>, \<open>storage\<close> or \<open>grade\<close> (in the earlier version:
  \<open>condition\<close>) is absent from the request body, the handler answers with status 400
  and an error message, and no URL is fetched.
\<close>

theorem missing_field_is_rejected_before_any_fetch:
  "(map_of body (js ''brand'') = None \<or> map_of body (js ''model'') = None
      \<or> map_of body (js ''storage'') = None \<or> map_of body (js ''grade'') = None
    \<longrightarrow> get_quote net random body =
          (Inr (Response 400 (JObj [(js ''error'', JStr (js ''Please provide all device details, including grade.''))])), []))
   \<and> (map_of body (js ''brand'') = None \<or> map_of body (js ''model'') = None
      \<or> map_of body (js ''storage'') = None \<or> map_of body (js ''condition'') = None
    \<longrightarrow> get_quote_v1 net random body =
          (Inr (Response 400 (JObj [(js ''error'', JStr (js ''Please provide all device details.''))])), []))"
  by (auto simp add: get_quote_def get_quote_v1_def field_def Let_def)

text \<open>
  A body with brand, model and storage only is rejected by both versions.
\<close>

theorem missing_field_is_rejected_before_any_fetch_witness:
  "map_of phone (js ''grade'') = None \<and> map_of phone (js ''condition'') = None
   \<and> get_quote two_prices 0 phone =
       (Inr (Response 400 (JObj [(js ''error'', JStr (js ''Please provide all device details, including grade.''))])), [])
   \<and> get_quote_v1 two_prices 0 phone =
       (Inr (Response 400 (JObj [(js ''error'', JStr (js ''Please provide all device details.''))])), [])"
proof -
  have g: "map_of phone (js ''grade'') = None" by code_simp
  have c: "map_of phone (js ''condition'') = None" by code_simp
  show ?thesis
    using missing_field_is_rejected_before_any_fetch[of phone two_prices 0] g c by blast
qed

text \<open>
  C9 (amended). In every response with status 200, of either version, \<open>ourPrice\<close> is
  a number, and it is an integer whenever it is finite (neither NaN nor an infinity).
\<close>

theorem our_price_integer_when_finite:
  "(fst (get_quote net random body) = Inr response \<and> status response = 200 \<longrightarrow>
      (\<exists>p. payload_field response ''ourPrice'' = JNum p \<and> (is_finite p \<longrightarrow> is_integer p)))
   \<and> (fst (get_quote_v1 net random body) = Inr response1 \<and> status response1 = 200 \<longrightarrow>
      (\<exists>p. payload_field response1 ''ourPrice'' = JNum p \<and> (is_finite p \<longrightarrow> is_integer p)))"
proof (intro conjI impI)
  have zero: "is_integer (Fin 0)" by (simp add: is_integer_def)
  {
    assume a: "fst (get_quote net random body) = Inr response \<and> status response = 200"
    then have c: "valid_request body" "printable_request body"
      using response_200_called(1)[of net random body response] by simp_all
    show "\<exists>p. payload_field response ''ourPrice'' = JNum p \<and> (is_finite p \<longrightarrow> is_integer p)"
      using a zero final_offer_integer unfolding get_quote_called[OF c]
      by (auto simp add: field_def split: if_splits)
  }
  {
    assume a: "fst (get_quote_v1 net random body) = Inr response1 \<and> status response1 = 200"
    then have c: "valid_request_v1 body" "printable_request_v1 body"
      using response_200_called(2)[of net random body response1] by simp_all
    show "\<exists>p. payload_field response1 ''ourPrice'' = JNum p \<and> (is_finite p \<longrightarrow> is_integer p)"
      using a zero final_offer_integer unfolding get_quote_v1_called[OF c] quote_v1_try_def Let_def
      by (auto simp add: field_def split: if_splits option.splits bind_splits)
  }
qed

text \<open>
  As stated, for whatever the condition record contains, the claim fails: for the empty
  condition object \<open>parseInt(undefined)\<close> is NaN, and the response has status 200 with
  \<open>ourPrice\<close> NaN.
\<close>

theorem our_price_NaN_counterexample:
  "fst (get_quote_v1 two_prices 0 (condition_request (JObj []))) =
     Inr (Response 200 (JObj [(js ''ourPrice'', JNum NaN), (js ''cexPrice'', JNum (Fin 100)),
                              (js ''musicMagpiePrice'', JNum (Fin 80))]))
   \<and> \<not> is_integer NaN"
  by code_simp

text \<open>
  The amended statement at the sample request: the offer 105 is finite and an integer.
\<close>

theorem our_price_integer_when_finite_witness:
  "fst (get_quote two_prices 0 graded_request) =
     Inr (Response 200 (JObj [(js ''ourPrice'', JNum (Fin 105)), (js ''cexPrice'', JNum (Fin 100)),
                              (js ''musicMagpiePrice'', JNum (Fin 80))]))
   \<and> is_finite (Fin 105) \<and> is_integer (Fin 105)
   \<and> (\<exists>response. fst (get_quote_v1 two_prices 0 (condition_request (condition_json pristine)))
          = Inr response \<and> status response = 200
        \<and> (\<exists>p. payload_field response ''ourPrice'' = JNum p \<and> (is_finite p \<longrightarrow> is_integer p)))"
proof -
  let ?body = "condition_request (condition_json pristine)"
  let ?r = "Response 200 (JObj [(js ''ourPrice'', JNum (Fin 105)), (js ''cexPrice'', JNum (Fin 100)),
                              (js ''musicMagpiePrice'', JNum (Fin 80))])"
  have s: "fst (get_quote two_prices 0 graded_request) = Inr ?r" by code_simp
  have s1: "fst (get_quote_v1 two_prices 0 ?body) = Inr ?r" by code_simp
  have st: "status ?r = 200" by simp
  have p: "payload_field ?r ''ourPrice'' = JNum (Fin 105)" by code_simp
  have f: "is_finite (Fin 105)" by code_simp
  have "is_integer (Fin 105)"
    using our_price_integer_when_finite[of two_prices 0 graded_request ?r] s st p f by auto
  moreover have "\<exists>p. payload_field ?r ''ourPrice'' = JNum p \<and> (is_finite p \<longrightarrow> is_integer p)"
    using our_price_integer_when_finite[of two_prices 0 ?body _ ?r] s1 st by blast
  ultimately show ?thesis using s s1 st f by blast
qed



end
